theory Spec2Isabelle
  imports Main "HOL-Library.Word" "HOL-Library.Signed_Division"
begin

section \<open>The POSIX clock and sleep of nng (src/platform/posix/posix_clock.c)\<close>

text \<open>
  The file compiles to one of three variants of \<^verbatim>\<open>nni_clock\<close> and one of two variants of
  \<^verbatim>\<open>nni_msleep\<close>, chosen by the preprocessor:
  \<^item> without \<^verbatim>\<open>NNG_USE_GETTIMEOFDAY\<close> and off Apple: \<^verbatim>\<open>clock_gettime\<close> and \<^verbatim>\<open>nanosleep\<close>;
  \<^item> without \<^verbatim>\<open>NNG_USE_GETTIMEOFDAY\<close> on Apple: \<^verbatim>\<open>clock_gettime\<close> when macOS 10.12 is
    available at run time, \<^verbatim>\<open>mach_absolute_time\<close> otherwise, and \<^verbatim>\<open>nanosleep\<close>;
  \<^item> with \<^verbatim>\<open>NNG_USE_GETTIMEOFDAY\<close>: \<^verbatim>\<open>gettimeofday\<close> and \<^verbatim>\<open>poll\<close>.

  The platform is outside the program. What a system call answers is an input of the
  model: a function that makes one call takes the answer as an argument, a loop takes the
  list of the answers to its successive calls (a script), and what a function asks of the
  platform is returned as a trace next to its result.
\<close>

subsection \<open>C types\<close>

text \<open>
  \<^verbatim>\<open>nni_time\<close> and \<^verbatim>\<open>nni_duration\<close> are declared in \<^verbatim>\<open>core/defs.h\<close>: \<^verbatim>\<open>nni_time\<close> is
  \<^verbatim>\<open>uint64_t\<close> and \<^verbatim>\<open>nni_duration\<close> is the signed 32-bit \<^verbatim>\<open>nng_duration\<close>. On the LP64
  platforms the file is written for, \<^verbatim>\<open>time_t\<close>, \<^verbatim>\<open>long\<close> and \<^verbatim>\<open>suseconds_t\<close> have 64 bits
  and \<^verbatim>\<open>int\<close> has 32. A signed value is the word read with \<open>sint\<close>.
\<close>

type_synonym nni_time = "64 word"
type_synonym nni_duration = "32 word"

record timespec =
  tv_sec :: "64 word"
  tv_nsec :: "64 word"

record timeval =
  tv_sec :: "64 word"
  tv_usec :: "64 word"

record mach_timebase_info_data =
  numer :: "32 word"
  denom :: "32 word"

text \<open>
  The division and remainder of C on signed operands truncate towards zero. The divisors
  of this file are the constants 1000 and 1000000, so neither a zero divisor nor the
  overflow of \<^verbatim>\<open>INT_MIN / -1\<close> arises.
\<close>

definition sdiv_word :: "'a::len word \<Rightarrow> 'a word \<Rightarrow> 'a word" where
  "sdiv_word a b = word_of_int (sint a sdiv sint b)"

definition smod_word :: "'a::len word \<Rightarrow> 'a word \<Rightarrow> 'a word" where
  "smod_word a b = word_of_int (sint a smod sint b)"

subsection \<open>Answers of the platform\<close>

text \<open>
  A system call that reports through its return value and \<^verbatim>\<open>errno\<close> and stores its answer
  through a pointer: \<open>ret\<close> is the value returned, \<open>errno\<close> the value of \<^verbatim>\<open>errno\<close> after
  the call, \<open>out\<close> the contents of the pointed-to object after the call.
\<close>

record 'a sysret =
  ret :: int
  errno :: int
  out :: 'a

text \<open>
  How a call of the program ends otherwise than by returning: \<^verbatim>\<open>nni_panic\<close> prints its
  message and aborts the process; a division by zero, which C leaves undefined, is kept
  apart as a fault of its own.
\<close>

datatype fault = Panic string | Divide_by_zero

text \<open>
  Modelled from the spec: \<^verbatim>\<open>nni_panic\<close> is defined in \<^verbatim>\<open>core/panic.c\<close>, not in this file;
  the spec has it abort the process immediately with the diagnostic message. The message
  is the format with the one \<^verbatim>\<open>%s\<close>, which ends it, replaced by the argument.
\<close>

definition nni_panic :: "string \<Rightarrow> string \<Rightarrow> fault" where
  "nni_panic prefix arg = Panic (prefix @ arg)"

subsection \<open>nni\_clock\<close>

text \<open>
  Lines 82 to 90, the variant off Apple. \<open>strerror\<close> is the C library's; \<open>r\<close> is the
  answer of \<^verbatim>\<open>clock_gettime(NNG_USE_CLOCKID, &ts)\<close>. The assignment \<^verbatim>\<open>msec = ts.tv_sec\<close>
  converts \<^verbatim>\<open>time_t\<close> to \<^verbatim>\<open>uint64_t\<close>, which keeps the 64 bits; the quotient
  \<^verbatim>\<open>ts.tv_nsec / 1000000\<close> is a signed division of \<^verbatim>\<open>long\<close>.
\<close>

definition nni_clock :: "(int \<Rightarrow> string) \<Rightarrow> timespec sysret \<Rightarrow> fault + nni_time" where
  "nni_clock strerror r =
     (if ret r \<noteq> 0 then Inl (nni_panic ''clock_gettime failed: '' (strerror (errno r)))
      else
        let ts = out r;
            msec = timespec.tv_sec ts;
            msec = msec * 1000;
            msec = msec + sdiv_word (tv_nsec ts) 1000000
        in Inr msec)"

text \<open>
  Lines 34 to 62, the variant on Apple. What the platform answers during one call:
  \<open>builtin_available\<close> is the test of line 37 (false also when line 36 compiles the
  branch out), \<open>clock_gettime_ret\<close> the answer of \<^verbatim>\<open>clock_gettime\<close>,
  \<open>mach_absolute_time\<close> the tick count, \<open>mach_timebase_info_kr\<close> the
  \<^verbatim>\<open>kern_return_t\<close> of \<^verbatim>\<open>mach_timebase_info\<close> and \<open>time_base_info\<close> the contents of
  the local \<^verbatim>\<open>time_base_info\<close> after that call (what the call stored, or what the stack held
  when the call stored nothing).
\<close>

record apple_env =
  builtin_available :: bool
  clock_gettime_ret :: "timespec sysret"
  mach_absolute_time :: "64 word"
  mach_timebase_info_kr :: int
  time_base_info :: mach_timebase_info_data

datatype platform_call = Clock_gettime | Mach_absolute_time | Mach_timebase_info

text \<open>
  The first branch repeats the statements of lines 82 to 90. In the second the operands
  \<^verbatim>\<open>numer\<close> and \<^verbatim>\<open>denom\<close> (\<^verbatim>\<open>uint32_t\<close>) are converted to \<^verbatim>\<open>uint64_t\<close>; the product wraps
  modulo \<open>2 ^ 64\<close>. The value returned by \<^verbatim>\<open>mach_timebase_info\<close> is not looked at. The
  second component lists the platform calls made, in order.
\<close>

definition nni_clock_apple ::
  "(int \<Rightarrow> string) \<Rightarrow> apple_env \<Rightarrow> (fault + nni_time) \<times> platform_call list" where
  "nni_clock_apple strerror e =
     (if builtin_available e then (nni_clock strerror (clock_gettime_ret e), [Clock_gettime])
      else
        let absolute_time = mach_absolute_time e;
            tbi = time_base_info e
        in (if denom tbi = 0 then Inl Divide_by_zero
            else Inr (((absolute_time * ucast (numer tbi)) div ucast (denom tbi)) div 10000000),
            [Mach_absolute_time, Mach_timebase_info]))"

text \<open>
  Lines 126 to 141, the variant with \<^verbatim>\<open>NNG_USE_GETTIMEOFDAY\<close>; \<open>r\<close> is the answer of
  \<^verbatim>\<open>gettimeofday(&tv, NULL)\<close>.
\<close>

definition nni_clock_gettimeofday :: "(int \<Rightarrow> string) \<Rightarrow> timeval sysret \<Rightarrow> fault + nni_time" where
  "nni_clock_gettimeofday strerror r =
     (if ret r \<noteq> 0 then Inl (nni_panic ''gettimeofday failed: '' (strerror (errno r)))
      else
        let tv = out r;
            ms = timeval.tv_sec tv;
            ms = ms * 1000;
            ms = ms + sdiv_word (tv_usec tv) 1000
        in Inr ms)"

subsection \<open>nni\_msleep\<close>

text \<open>
  The answer of one \<^verbatim>\<open>nanosleep(&ts, &ts)\<close>: the fields of \<open>sysret\<close>, where \<open>out\<close> is the
  contents of \<^verbatim>\<open>ts\<close> after the call (request and remainder share the buffer), and
  \<open>elapsed\<close>, the nanoseconds that passed between the call and its return.
\<close>

record 'a timed_sysret = "'a sysret" +
  elapsed :: nat

text \<open>
  Lines 104 to 108. The script holds the answers to the successive calls of
  \<^verbatim>\<open>nanosleep\<close>. The result is the list of the requests passed to \<^verbatim>\<open>nanosleep\<close>, in
  order, and \<open>Some ()\<close> when the loop is left, \<open>None\<close> when the script ends with a call
  still unanswered. \<^verbatim>\<open>errno\<close> is not read.
\<close>

fun nni_msleep_loop ::
  "timespec timed_sysret list \<Rightarrow> timespec \<Rightarrow> timespec list \<times> unit option" where
  "nni_msleep_loop [] ts =
     (if timespec.tv_sec ts \<noteq> 0 \<or> tv_nsec ts \<noteq> 0 then ([ts], None) else ([], Some ()))"
| "nni_msleep_loop (r # rs) ts =
     (if timespec.tv_sec ts \<noteq> 0 \<or> tv_nsec ts \<noteq> 0 then
        (if ret r = 0 then ([ts], Some ())
         else let (reqs, res) = nni_msleep_loop rs (out r) in (ts # reqs, res))
      else ([], Some ()))"

text \<open>
  Lines 100 and 101, the request built from the duration. \<^verbatim>\<open>ms / 1000\<close> and
  \<^verbatim>\<open>(ms % 1000) * 1000000\<close> are computed in \<^verbatim>\<open>int\<close> and converted to \<^verbatim>\<open>time_t\<close> and
  \<^verbatim>\<open>long\<close>, which extends the sign.
\<close>

definition msleep_timespec :: "nni_duration \<Rightarrow> timespec" where
  "msleep_timespec ms =
     \<lparr>timespec.tv_sec = scast (sdiv_word ms 1000),
      tv_nsec = scast (smod_word ms 1000 * 1000000)\<rparr>"

text \<open>Lines 95 to 109.\<close>

definition nni_msleep ::
  "timespec timed_sysret list \<Rightarrow> nni_duration \<Rightarrow> timespec list \<times> unit option" where
  "nni_msleep rs ms = (let ts = msleep_timespec ms in nni_msleep_loop rs ts)"

text \<open>
  Lines 166 to 169. The script holds the answers to the successive calls of
  \<^verbatim>\<open>gettimeofday\<close>; the time a \<^verbatim>\<open>poll\<close> takes shows in the next answer, and what \<^verbatim>\<open>poll\<close>
  returns is discarded by the cast to \<^verbatim>\<open>void\<close>. The result is the list of the timeouts
  passed to \<^verbatim>\<open>poll\<close>, in order, and how the loop ends: \<open>Some (Inr ())\<close> when it is left,
  \<open>Some (Inl f)\<close> when \<^verbatim>\<open>nni_clock\<close> panics, \<open>None\<close> when the script ends before the
  loop does. The cast \<^verbatim>\<open>(int) (expire - now)\<close> keeps the low 32 bits.
\<close>

fun nni_msleep_poll_loop ::
  "(int \<Rightarrow> string) \<Rightarrow> timeval sysret list \<Rightarrow> nni_time \<Rightarrow> nni_time \<Rightarrow>
   32 word list \<times> (fault + unit) option" where
  "nni_msleep_poll_loop strerror [] now expire =
     (if now < expire then ([ucast (expire - now)], None) else ([], Some (Inr ())))"
| "nni_msleep_poll_loop strerror (g # gs) now expire =
     (if now < expire then
        (case nni_clock_gettimeofday strerror g of
           Inl f \<Rightarrow> ([ucast (expire - now)], Some (Inl f))
         | Inr now' \<Rightarrow>
             let (polls, res) = nni_msleep_poll_loop strerror gs now' expire
             in (ucast (expire - now) # polls, res))
      else ([], Some (Inr ())))"

text \<open>
  Lines 143 to 170. In \<^verbatim>\<open>expire = now + ms\<close> the \<^verbatim>\<open>int32_t\<close> operand is converted to
  \<^verbatim>\<open>uint64_t\<close>, which extends the sign, and the sum wraps modulo \<open>2 ^ 64\<close>.
\<close>

definition nni_msleep_gettimeofday ::
  "(int \<Rightarrow> string) \<Rightarrow> timeval sysret list \<Rightarrow> nni_duration \<Rightarrow>
   32 word list \<times> (fault + unit) option" where
  "nni_msleep_gettimeofday strerror gs ms =
     (case gs of
        [] \<Rightarrow> ([], None)
      | g # gs' \<Rightarrow>
          (case nni_clock_gettimeofday strerror g of
             Inl f \<Rightarrow> ([], Some (Inl f))
           | Inr now \<Rightarrow>
               let expire = now + scast ms
               in nni_msleep_poll_loop strerror gs' now expire))"

subsection \<open>Sequences of calls and the platform's side\<close>

text \<open>The platform calls made by successive calls of \<^verbatim>\<open>nni_clock\<close> on Apple, in order.\<close>

definition nni_clock_apple_calls :: "(int \<Rightarrow> string) \<Rightarrow> apple_env list \<Rightarrow> platform_call list" where
  "nni_clock_apple_calls strerror es = concat (map (\<lambda>e. snd (nni_clock_apple strerror e)) es)"

text \<open>
  A monotonic clock that stands at \<open>n\<close> nanoseconds after its epoch answers
  \<^verbatim>\<open>clock_gettime\<close> with success and the normalised pair of seconds and nanoseconds.
\<close>

definition clock_gettime_at :: "nat \<Rightarrow> timespec sysret" where
  "clock_gettime_at n =
     \<lparr>ret = 0, errno = 0,
      out = \<lparr>timespec.tv_sec = word_of_int (int n div 1000000000),
             tv_nsec = word_of_int (int n mod 1000000000)\<rparr>\<rparr>"

text \<open>The nanoseconds a \<^verbatim>\<open>timespec\<close> stands for.\<close>

definition timespec_ns :: "timespec \<Rightarrow> int" where
  "timespec_ns ts = sint (timespec.tv_sec ts) * 1000000000 + sint (tv_nsec ts)"

text \<open>The microseconds a \<^verbatim>\<open>timeval\<close> stands for.\<close>

definition timeval_us :: "timeval \<Rightarrow> int" where
  "timeval_us tv = sint (timeval.tv_sec tv) * 1000000 + sint (tv_usec tv)"

text \<open>
  What POSIX promises of one call of \<^verbatim>\<open>nanosleep\<close> with the request \<open>req\<close>: a call that
  returns 0 has let at least the requested time pass, and a call that returns early has
  left in the buffer at least the requested time less the time that passed.
\<close>

definition nanosleep_answer_ok :: "timespec \<Rightarrow> timespec timed_sysret \<Rightarrow> bool" where
  "nanosleep_answer_ok req r =
     (if ret r = 0 then timespec_ns req \<le> int (elapsed r)
      else timespec_ns req \<le> int (elapsed r) + timespec_ns (out r))"

text \<open>
  The promise kept by every call made: \<open>reqs\<close> are the requests the program passed, in
  order, and \<open>rs\<close> the answers.
\<close>

definition nanosleep_conforms :: "timespec list \<Rightarrow> timespec timed_sysret list \<Rightarrow> bool" where
  "nanosleep_conforms reqs rs =
     list_all (\<lambda>(req, r). nanosleep_answer_ok req r) (zip reqs rs)"

text \<open>The time that passed inside the calls of \<^verbatim>\<open>nanosleep\<close> that were made.\<close>

definition nanosleep_elapsed :: "timespec timed_sysret list \<Rightarrow> timespec list \<Rightarrow> nat" where
  "nanosleep_elapsed rs reqs = sum_list (map elapsed (take (length reqs) rs))"

text \<open>
  Messages of the C library for a few error numbers, for the concrete inputs below; the
  functions above take \<^verbatim>\<open>strerror\<close> as a parameter.
\<close>

definition strerror_sample :: "int \<Rightarrow> string" where
  "strerror_sample e =
     (if e = 1 then ''Operation not permitted''
      else if e = 4 then ''Interrupted system call''
      else if e = 14 then ''Bad address''
      else if e = 22 then ''Invalid argument''
      else ''Unknown error'')"

section \<open>Properties\<close>

subsection \<open>Arithmetic of the C types\<close>

lemma sdiv_int_nonneg: "0 \<le> a \<Longrightarrow> 0 < b \<Longrightarrow> (a::int) sdiv b = a div b"
  by (simp add: signed_divide_int_def sgn_if)

lemma uint_word_of_int_64: "0 \<le> k \<Longrightarrow> k < 2 ^ 64 \<Longrightarrow> uint (word_of_int k :: 64 word) = k"
  by (simp add: uint_word_of_int take_bit_int_eq_self)

lemma uint_scast_32_64: "uint (scast (ms :: 32 word) :: 64 word) = sint ms mod 2 ^ 64"
  unfolding scast_eq by (simp only: uint_word_of_int) simp

lemma uint_add_scast:
  fixes now :: "64 word" and ms :: "32 word"
  assumes "0 \<le> uint now + sint ms" and "uint now + sint ms < 2 ^ 64"
  shows "uint (now + scast ms) = uint now + sint ms"
proof -
  have "uint (now + scast ms) = (uint now + uint (scast ms :: 64 word)) mod 2 ^ 64"
    by (simp add: uint_word_ariths(1))
  also have "\<dots> = (uint now + sint ms mod 2 ^ 64) mod 2 ^ 64"
    by (simp only: uint_scast_32_64)
  also have "\<dots> = (uint now + sint ms) mod 2 ^ 64"
    by (rule mod_add_right_eq)
  also have "\<dots> = uint now + sint ms"
    using assms by (rule mod_pos_pos_trivial)
  finally show ?thesis .
qed

lemma expire_negative:
  fixes now :: "64 word" and ms :: "32 word"
  assumes "sint ms < 0" and "- sint ms \<le> uint now"
  shows "now + scast ms \<le> now"
proof -
  have "uint now < 2 ^ 64" using uint_lt2p [of now] by simp
  with assms have "uint (now + scast ms) = uint now + sint ms"
    by (intro uint_add_scast) simp_all
  with assms(1) show ?thesis by (simp add: word_le_def)
qed

lemma sint_word_of_int_32:
  "- (2 ^ 31) \<le> k \<Longrightarrow> k < 2 ^ 31 \<Longrightarrow> sint (word_of_int k :: 32 word) = k"
  by (simp add: signed_of_int signed_take_bit_int_eq_self)

lemma sint_word_of_int_64:
  "- (2 ^ 63) \<le> k \<Longrightarrow> k < 2 ^ 63 \<Longrightarrow> sint (word_of_int k :: 64 word) = k"
  by (simp add: signed_of_int signed_take_bit_int_eq_self)

lemma sint_scast_32_64: "sint (scast (w :: 32 word) :: 64 word) = sint w"
  by (rule sint_up_scast) (simp add: is_up)

lemma sint_lt_32: "sint (w :: 32 word) < 2 ^ 31"
  using sint_lt [of w] by simp

lemma uint_ucast_32_64: "uint (ucast (n :: 32 word) :: 64 word) = uint n"
  by (rule uint_up_ucast) (simp add: is_up)

lemma ms_of_ns: "(S::int) * 1000 + N div 1000000 = (S * 1000000000 + N) div 1000000"
  by (simp add: div_add1_eq)

lemma ms_of_us: "(S::int) * 1000 + U div 1000 = (S * 1000000 + U) div 1000"
  by (simp add: div_add1_eq)

lemma word_diff_ge:
  fixes a b :: "64 word"
  assumes "uint a + k \<le> uint b" and "0 \<le> k"
  shows "a \<le> b \<and> k \<le> uint (b - a)"
proof -
  from assms have le: "uint a \<le> uint b" by simp
  then have "uint (b - a) = uint b - uint a" by (simp add: uint_sub_lem)
  with assms le show ?thesis by (simp add: word_le_def)
qed

lemma sorted_ends:
  "sorted (a # xs @ [b]) \<Longrightarrow> xs \<noteq> [] \<Longrightarrow> a \<le> hd xs \<and> last xs \<le> (b :: 'a :: linorder)"
  by (cases xs) (auto simp: sorted_append)

subsection \<open>The clock\<close>

lemma nni_clock_word:
  "ret r = 0 \<Longrightarrow> nni_clock strerror r =
     Inr (word_of_int (sint (timespec.tv_sec (out r)) * 1000 +
                       sint (tv_nsec (out r)) sdiv 1000000))"
  by (simp add: nni_clock_def Let_def sdiv_word_def)

lemma nni_clock_exact:
  assumes "ret r = 0" and "0 \<le> sint (timespec.tv_sec (out r))" and "0 \<le> sint (tv_nsec (out r))"
    and "sint (timespec.tv_sec (out r)) * 1000 + sint (tv_nsec (out r)) div 1000000 < 2 ^ 64"
  shows "\<exists>ms. nni_clock strerror r = Inr ms \<and>
    uint ms = sint (timespec.tv_sec (out r)) * 1000 + sint (tv_nsec (out r)) div 1000000"
proof -
  let ?k = "sint (timespec.tv_sec (out r)) * 1000 + sint (tv_nsec (out r)) div 1000000"
  have q: "sint (tv_nsec (out r)) sdiv 1000000 = sint (tv_nsec (out r)) div 1000000"
    using assms(3) by (rule sdiv_int_nonneg) simp
  have "nni_clock strerror r = Inr (word_of_int ?k)"
    using nni_clock_word [OF assms(1), of strerror] by (simp only: q)
  moreover have "0 \<le> ?k" using assms(2,3) by (simp add: pos_imp_zdiv_nonneg_iff)
  then have "uint (word_of_int ?k :: 64 word) = ?k"
    using assms(4) by (rule uint_word_of_int_64)
  ultimately show ?thesis by blast
qed

lemma nni_clock_gettimeofday_word:
  "ret r = 0 \<Longrightarrow> nni_clock_gettimeofday strerror r =
     Inr (word_of_int (sint (timeval.tv_sec (out r)) * 1000 +
                       sint (tv_usec (out r)) sdiv 1000))"
  by (simp add: nni_clock_gettimeofday_def Let_def sdiv_word_def)

lemma nni_clock_gettimeofday_exact:
  assumes "ret r = 0" and "0 \<le> sint (timeval.tv_sec (out r))" and "0 \<le> sint (tv_usec (out r))"
    and "sint (timeval.tv_sec (out r)) * 1000 + sint (tv_usec (out r)) div 1000 < 2 ^ 64"
  shows "\<exists>ms. nni_clock_gettimeofday strerror r = Inr ms \<and>
    uint ms = sint (timeval.tv_sec (out r)) * 1000 + sint (tv_usec (out r)) div 1000"
proof -
  let ?k = "sint (timeval.tv_sec (out r)) * 1000 + sint (tv_usec (out r)) div 1000"
  have q: "sint (tv_usec (out r)) sdiv 1000 = sint (tv_usec (out r)) div 1000"
    using assms(3) by (rule sdiv_int_nonneg) simp
  have "nni_clock_gettimeofday strerror r = Inr (word_of_int ?k)"
    using nni_clock_gettimeofday_word [OF assms(1), of strerror] by (simp only: q)
  moreover have "0 \<le> ?k" using assms(2,3) by (simp add: pos_imp_zdiv_nonneg_iff)
  then have "uint (word_of_int ?k :: 64 word) = ?k"
    using assms(4) by (rule uint_word_of_int_64)
  ultimately show ?thesis by blast
qed

lemma nni_clock_mono:
  assumes ok: "ret r1 = 0" "ret r2 = 0"
    and nonneg: "0 \<le> sint (timespec.tv_sec (out r1))" "0 \<le> sint (tv_nsec (out r1))"
      "0 \<le> sint (timespec.tv_sec (out r2))" "0 \<le> sint (tv_nsec (out r2))"
    and le: "timespec_ns (out r1) \<le> timespec_ns (out r2)"
    and fits: "timespec_ns (out r2) div 1000000 < 2 ^ 64"
  shows "\<exists>t1 t2. nni_clock strerror r1 = Inr t1 \<and> nni_clock strerror r2 = Inr t2 \<and> t1 \<le> t2"
proof -
  let ?S1 = "sint (timespec.tv_sec (out r1))" and ?N1 = "sint (tv_nsec (out r1))"
  let ?S2 = "sint (timespec.tv_sec (out r2))" and ?N2 = "sint (tv_nsec (out r2))"
  have e1: "?S1 * 1000 + ?N1 div 1000000 = timespec_ns (out r1) div 1000000"
    and e2: "?S2 * 1000 + ?N2 div 1000000 = timespec_ns (out r2) div 1000000"
    by (simp_all only: ms_of_ns timespec_ns_def)
  have m: "timespec_ns (out r1) div 1000000 \<le> timespec_ns (out r2) div 1000000"
    using le by (rule zdiv_mono1) simp
  from fits have f2: "?S2 * 1000 + ?N2 div 1000000 < 2 ^ 64" by (simp only: e2)
  from fits m have f1: "?S1 * 1000 + ?N1 div 1000000 < 2 ^ 64" by (simp only: e1)
  from nni_clock_exact [OF ok(1) nonneg(1,2) f1, of strerror] obtain t1
    where t1: "nni_clock strerror r1 = Inr t1" "uint t1 = ?S1 * 1000 + ?N1 div 1000000" by blast
  from nni_clock_exact [OF ok(2) nonneg(3,4) f2, of strerror] obtain t2
    where t2: "nni_clock strerror r2 = Inr t2" "uint t2 = ?S2 * 1000 + ?N2 div 1000000" by blast
  from m t1(2) t2(2) have "t1 \<le> t2" by (simp only: word_le_def e1 e2)
  with t1(1) t2(1) show ?thesis by blast
qed

lemma nni_clock_gettimeofday_mono:
  assumes ok: "ret r1 = 0" "ret r2 = 0"
    and nonneg: "0 \<le> sint (timeval.tv_sec (out r1))" "0 \<le> sint (tv_usec (out r1))"
      "0 \<le> sint (timeval.tv_sec (out r2))" "0 \<le> sint (tv_usec (out r2))"
    and le: "timeval_us (out r1) \<le> timeval_us (out r2)"
    and fits: "timeval_us (out r2) div 1000 < 2 ^ 64"
  shows "\<exists>t1 t2. nni_clock_gettimeofday strerror r1 = Inr t1 \<and>
           nni_clock_gettimeofday strerror r2 = Inr t2 \<and> t1 \<le> t2"
proof -
  let ?S1 = "sint (timeval.tv_sec (out r1))" and ?N1 = "sint (tv_usec (out r1))"
  let ?S2 = "sint (timeval.tv_sec (out r2))" and ?N2 = "sint (tv_usec (out r2))"
  have e1: "?S1 * 1000 + ?N1 div 1000 = timeval_us (out r1) div 1000"
    and e2: "?S2 * 1000 + ?N2 div 1000 = timeval_us (out r2) div 1000"
    by (simp_all only: ms_of_us timeval_us_def)
  have m: "timeval_us (out r1) div 1000 \<le> timeval_us (out r2) div 1000"
    using le by (rule zdiv_mono1) simp
  from fits have f2: "?S2 * 1000 + ?N2 div 1000 < 2 ^ 64" by (simp only: e2)
  from fits m have f1: "?S1 * 1000 + ?N1 div 1000 < 2 ^ 64" by (simp only: e1)
  from nni_clock_gettimeofday_exact [OF ok(1) nonneg(1,2) f1, of strerror] obtain t1
    where t1: "nni_clock_gettimeofday strerror r1 = Inr t1" "uint t1 = ?S1 * 1000 + ?N1 div 1000" by blast
  from nni_clock_gettimeofday_exact [OF ok(2) nonneg(3,4) f2, of strerror] obtain t2
    where t2: "nni_clock_gettimeofday strerror r2 = Inr t2" "uint t2 = ?S2 * 1000 + ?N2 div 1000" by blast
  from m t1(2) t2(2) have "t1 \<le> t2" by (simp only: word_le_def e1 e2)
  with t1(1) t2(1) show ?thesis by blast
qed

lemma nni_clock_apple_ticks:
  assumes "\<not> builtin_available e" and "denom (time_base_info e) \<noteq> 0"
  shows "fst (nni_clock_apple strerror e) =
     Inr (mach_absolute_time e * ucast (numer (time_base_info e))
            div ucast (denom (time_base_info e)) div 10000000)"
  using assms by (simp add: nni_clock_apple_def Let_def)

lemma tick_ms_mono:
  fixes a b :: "64 word" and n d :: "32 word"
  assumes "a \<le> b" and "uint b * uint n < 2 ^ 64" and "d \<noteq> 0"
  shows "a * ucast n div ucast d div 10000000 \<le> b * ucast n div ucast d div 10000000"
proof -
  have ab: "uint a \<le> uint b" using assms(1) by (simp add: word_le_def)
  have n0: "0 \<le> uint n" by simp
  have "uint a * uint n \<le> uint b * uint n" using ab n0 by (rule mult_right_mono)
  with assms(2) have fa: "uint a * uint n < 2 ^ 64" by simp
  have ua: "uint (a * ucast n) = uint a * uint n"
    using fa uint_mult_lem [of a "ucast n :: 64 word"] by (simp add: uint_ucast_32_64)
  have ub: "uint (b * ucast n) = uint b * uint n"
    using assms(2) uint_mult_lem [of b "ucast n :: 64 word"] by (simp add: uint_ucast_32_64)
  have "uint d \<noteq> 0" using assms(3) by (simp add: uint_0_iff)
  moreover have "0 \<le> uint d" by simp
  ultimately have d0: "0 < uint d" by linarith
  have "uint a * uint n div uint d \<le> uint b * uint n div uint d"
    using \<open>uint a * uint n \<le> uint b * uint n\<close> d0 by (rule zdiv_mono1)
  then have "uint a * uint n div uint d div 10000000 \<le> uint b * uint n div uint d div 10000000"
    by (rule zdiv_mono1) simp
  then show ?thesis
    by (simp add: word_le_def uint_div ua ub uint_ucast_32_64)
qed

lemma clock_gettime_at_ms:
  assumes "int n div 1000000 < 2 ^ 64"
  shows "\<exists>t. nni_clock strerror (clock_gettime_at n) = Inr t \<and> uint t = int n div 1000000"
proof -
  let ?r = "clock_gettime_at n" and ?N = "int n"
  have "?N div 1000000000 = ?N div 1000000 div 1000"
    using zdiv_zmult2_eq [of 1000 ?N 1000000] by simp
  moreover have "?N div 1000000 div 1000 * 1000 + ?N div 1000000 mod 1000 = ?N div 1000000"
    by (rule div_mult_mod_eq)
  moreover have "0 \<le> ?N div 1000000 mod 1000" by simp
  ultimately have s63: "?N div 1000000000 < 2 ^ 63" using assms by simp
  have s0: "0 \<le> ?N div 1000000000" by (simp add: pos_imp_zdiv_nonneg_iff)
  have n0: "0 \<le> ?N mod 1000000000" by simp
  have "?N mod 1000000000 < 1000000000" by simp
  then have n63: "?N mod 1000000000 < 2 ^ 63" by simp
  have sec: "sint (timespec.tv_sec (out ?r)) = ?N div 1000000000"
    unfolding clock_gettime_at_def using s63 s0
    by (simp add: sint_word_of_int_64)
  have nsec: "sint (tv_nsec (out ?r)) = ?N mod 1000000000"
    unfolding clock_gettime_at_def using n63 n0
    by (simp add: sint_word_of_int_64)
  have ms: "?N div 1000000000 * 1000 + ?N mod 1000000000 div 1000000 = ?N div 1000000"
    by (simp only: ms_of_ns div_mult_mod_eq)
  have "ret ?r = 0" by (simp add: clock_gettime_at_def)
  moreover have "0 \<le> sint (timespec.tv_sec (out ?r))" "0 \<le> sint (tv_nsec (out ?r))"
    unfolding sec nsec using s0 n0 by simp_all
  moreover have "sint (timespec.tv_sec (out ?r)) * 1000 + sint (tv_nsec (out ?r)) div 1000000 < 2 ^ 64"
    unfolding sec nsec ms using assms by simp
  ultimately obtain t where "nni_clock strerror ?r = Inr t"
    "uint t = sint (timespec.tv_sec (out ?r)) * 1000 + sint (tv_nsec (out ?r)) div 1000000"
    using nni_clock_exact [of ?r strerror] by blast
  then show ?thesis unfolding sec nsec ms by blast
qed

text \<open>
  Claim C5. On a successful \<^verbatim>\<open>clock_gettime\<close> the clock (off Apple, and on Apple when
  macOS 10.12 is available at run time) returns
  \<open>seconds * 1000 + nanoseconds / 1000000\<close>, computed in \<^verbatim>\<open>uint64_t\<close> with the
  truncating division of C, for every pair; when the pair is not negative and the value
  fits 64 bits this is the number itself, and it is the millisecond the reading lies in:
  what is below one millisecond is cut off, never rounded up.
\<close>

theorem nni_clock_milliseconds:
  assumes "ret r = 0"
  shows "nni_clock strerror r =
           Inr (word_of_int (sint (timespec.tv_sec (out r)) * 1000 +
                             sint (tv_nsec (out r)) sdiv 1000000)) \<and>
         (0 \<le> sint (timespec.tv_sec (out r)) \<and> 0 \<le> sint (tv_nsec (out r)) \<and>
          sint (timespec.tv_sec (out r)) * 1000 + sint (tv_nsec (out r)) div 1000000 < 2 ^ 64 \<longrightarrow>
          (\<exists>ms. nni_clock strerror r = Inr ms \<and>
             uint ms = sint (timespec.tv_sec (out r)) * 1000 + sint (tv_nsec (out r)) div 1000000 \<and>
             uint ms * 1000000 \<le> timespec_ns (out r) \<and>
             timespec_ns (out r) < (uint ms + 1) * 1000000)) \<and>
         (builtin_available e \<longrightarrow>
          fst (nni_clock_apple strerror e) = nni_clock strerror (clock_gettime_ret e))"
proof -
  let ?S = "sint (timespec.tv_sec (out r))" and ?N = "sint (tv_nsec (out r))"
  have "\<exists>ms. nni_clock strerror r = Inr ms \<and> uint ms = ?S * 1000 + ?N div 1000000 \<and>
             uint ms * 1000000 \<le> timespec_ns (out r) \<and>
             timespec_ns (out r) < (uint ms + 1) * 1000000"
    if h: "0 \<le> ?S" "0 \<le> ?N" "?S * 1000 + ?N div 1000000 < 2 ^ 64"
  proof -
    from nni_clock_exact [OF assms h, of strerror] obtain ms
      where ms: "nni_clock strerror r = Inr ms" "uint ms = ?S * 1000 + ?N div 1000000" by blast
    have "uint ms * 1000000 \<le> ?S * 1000000000 + ?N"
      and "?S * 1000000000 + ?N < (uint ms + 1) * 1000000"
      unfolding ms(2) by presburger+
    with ms show ?thesis by (auto simp: timespec_ns_def)
  qed
  moreover have "fst (nni_clock_apple strerror e) = nni_clock strerror (clock_gettime_ret e)"
    if "builtin_available e"
    using that by (simp add: nni_clock_apple_def)
  ultimately show ?thesis using nni_clock_word [OF assms, of strerror] by blast
qed

theorem nni_clock_milliseconds_witness:
  "ret \<lparr>ret = 0, errno = 0, out = \<lparr>timespec.tv_sec = 12, tv_nsec = 345678901\<rparr>\<rparr> = 0 \<and>
   0 \<le> sint (12 :: 64 word) \<and> 0 \<le> sint (345678901 :: 64 word) \<and>
   sint (12 :: 64 word) * 1000 + sint (345678901 :: 64 word) div 1000000 < 2 ^ 64 \<and>
   nni_clock strerror_sample
     \<lparr>ret = 0, errno = 0, out = \<lparr>timespec.tv_sec = 12, tv_nsec = 345678901\<rparr>\<rparr> = Inr 12345 \<and>
   fst (nni_clock_apple strerror_sample
     \<lparr>builtin_available = True,
      clock_gettime_ret =
        \<lparr>ret = 0, errno = 0, out = \<lparr>timespec.tv_sec = 12, tv_nsec = 345678901\<rparr>\<rparr>,
      mach_absolute_time = 0, mach_timebase_info_kr = 0,
      time_base_info = \<lparr>numer = 1, denom = 1\<rparr>\<rparr>) = Inr 12345"
  using nni_clock_milliseconds
    [of "\<lparr>ret = 0, errno = 0, out = \<lparr>timespec.tv_sec = 12, tv_nsec = 345678901\<rparr>\<rparr>"
        strerror_sample
        "\<lparr>builtin_available = True,
          clock_gettime_ret =
            \<lparr>ret = 0, errno = 0, out = \<lparr>timespec.tv_sec = 12, tv_nsec = 345678901\<rparr>\<rparr>,
          mach_absolute_time = 0, mach_timebase_info_kr = 0,
          time_base_info = \<lparr>numer = 1, denom = 1\<rparr>\<rparr>"]
  by (simp add: signed_divide_int_def)

text \<open>
  Claim C2, as the code has it. Two successive calls give \<open>t1 \<le> t2\<close> under these
  conditions on what the platform answered. With \<^verbatim>\<open>clock_gettime\<close> (off Apple, and on
  Apple when macOS 10.12 is available at both calls): both calls succeed, seconds and
  nanoseconds are not negative, the second reading is not earlier than the first, and
  the second reading in milliseconds fits 64 bits. With \<^verbatim>\<open>gettimeofday\<close>: the same of
  seconds and microseconds, so only as long as the time of day was not set back between
  the two calls. On the tick path at both calls: the same scale factor with a
  denominator that is not zero, a tick count that did not decrease, and a product of the
  later tick count and the numerator below \<open>2 ^ 64\<close>, so that the multiplication of
  line 62 does not wrap.
\<close>

theorem nni_clock_monotone:
  "(ret r1 = 0 \<and> ret r2 = 0 \<and>
    0 \<le> sint (timespec.tv_sec (out r1)) \<and> 0 \<le> sint (tv_nsec (out r1)) \<and>
    0 \<le> sint (timespec.tv_sec (out r2)) \<and> 0 \<le> sint (tv_nsec (out r2)) \<and>
    timespec_ns (out r1) \<le> timespec_ns (out r2) \<and>
    timespec_ns (out r2) div 1000000 < 2 ^ 64 \<longrightarrow>
    (\<exists>t1 t2. nni_clock strerror r1 = Inr t1 \<and> nni_clock strerror r2 = Inr t2 \<and> t1 \<le> t2)) \<and>
   (ret g1 = 0 \<and> ret g2 = 0 \<and>
    0 \<le> sint (timeval.tv_sec (out g1)) \<and> 0 \<le> sint (tv_usec (out g1)) \<and>
    0 \<le> sint (timeval.tv_sec (out g2)) \<and> 0 \<le> sint (tv_usec (out g2)) \<and>
    timeval_us (out g1) \<le> timeval_us (out g2) \<and>
    timeval_us (out g2) div 1000 < 2 ^ 64 \<longrightarrow>
    (\<exists>t1 t2. nni_clock_gettimeofday strerror g1 = Inr t1 \<and>
       nni_clock_gettimeofday strerror g2 = Inr t2 \<and> t1 \<le> t2)) \<and>
   (\<not> builtin_available e1 \<and> \<not> builtin_available e2 \<and>
    time_base_info e1 = time_base_info e2 \<and> denom (time_base_info e1) \<noteq> 0 \<and>
    mach_absolute_time e1 \<le> mach_absolute_time e2 \<and>
    uint (mach_absolute_time e2) * uint (numer (time_base_info e2)) < 2 ^ 64 \<longrightarrow>
    (\<exists>t1 t2. fst (nni_clock_apple strerror e1) = Inr t1 \<and>
       fst (nni_clock_apple strerror e2) = Inr t2 \<and> t1 \<le> t2)) \<and>
   (builtin_available a1 \<and> builtin_available a2 \<and>
    ret (clock_gettime_ret a1) = 0 \<and> ret (clock_gettime_ret a2) = 0 \<and>
    0 \<le> sint (timespec.tv_sec (out (clock_gettime_ret a1))) \<and>
    0 \<le> sint (tv_nsec (out (clock_gettime_ret a1))) \<and>
    0 \<le> sint (timespec.tv_sec (out (clock_gettime_ret a2))) \<and>
    0 \<le> sint (tv_nsec (out (clock_gettime_ret a2))) \<and>
    timespec_ns (out (clock_gettime_ret a1)) \<le> timespec_ns (out (clock_gettime_ret a2)) \<and>
    timespec_ns (out (clock_gettime_ret a2)) div 1000000 < 2 ^ 64 \<longrightarrow>
    (\<exists>t1 t2. fst (nni_clock_apple strerror a1) = Inr t1 \<and>
       fst (nni_clock_apple strerror a2) = Inr t2 \<and> t1 \<le> t2))"
proof -
  have av: "fst (nni_clock_apple strerror a) = nni_clock strerror (clock_gettime_ret a)"
    if "builtin_available a" for a
    using that by (simp add: nni_clock_apple_def)
  have "\<exists>t1 t2. fst (nni_clock_apple strerror a1) = Inr t1 \<and>
       fst (nni_clock_apple strerror a2) = Inr t2 \<and> t1 \<le> t2"
    if "builtin_available a1" "builtin_available a2"
      and h: "ret (clock_gettime_ret a1) = 0" "ret (clock_gettime_ret a2) = 0"
        "0 \<le> sint (timespec.tv_sec (out (clock_gettime_ret a1)))"
        "0 \<le> sint (tv_nsec (out (clock_gettime_ret a1)))"
        "0 \<le> sint (timespec.tv_sec (out (clock_gettime_ret a2)))"
        "0 \<le> sint (tv_nsec (out (clock_gettime_ret a2)))"
        "timespec_ns (out (clock_gettime_ret a1)) \<le> timespec_ns (out (clock_gettime_ret a2))"
        "timespec_ns (out (clock_gettime_ret a2)) div 1000000 < 2 ^ 64"
    using nni_clock_mono [OF h, of strerror] that(1,2) by (simp add: av)
  moreover
  have "\<exists>t1 t2. fst (nni_clock_apple strerror e1) = Inr t1 \<and>
       fst (nni_clock_apple strerror e2) = Inr t2 \<and> t1 \<le> t2"
    if h: "\<not> builtin_available e1" "\<not> builtin_available e2"
      "time_base_info e1 = time_base_info e2" "denom (time_base_info e1) \<noteq> 0"
      "mach_absolute_time e1 \<le> mach_absolute_time e2"
      "uint (mach_absolute_time e2) * uint (numer (time_base_info e2)) < 2 ^ 64"
  proof -
    from h(3,4) have d2: "denom (time_base_info e2) \<noteq> 0" by simp
    from tick_ms_mono [OF h(5,6) d2]
    have "mach_absolute_time e1 * ucast (numer (time_base_info e1))
            div ucast (denom (time_base_info e1)) div 10000000
          \<le> mach_absolute_time e2 * ucast (numer (time_base_info e2))
            div ucast (denom (time_base_info e2)) div 10000000"
      by (simp only: h(3))
    with nni_clock_apple_ticks [OF h(1,4), of strerror]
      nni_clock_apple_ticks [OF h(2) d2, of strerror]
    show ?thesis by blast
  qed
  ultimately show ?thesis
    using nni_clock_mono [of r1 r2 strerror] nni_clock_gettimeofday_mono [of g1 g2 strerror]
    by blast
qed

theorem nni_clock_monotone_witness:
  "nni_clock strerror_sample
     \<lparr>ret = 0, errno = 0, out = \<lparr>timespec.tv_sec = 12, tv_nsec = 345678901\<rparr>\<rparr> = Inr 12345 \<and>
   nni_clock strerror_sample
     \<lparr>ret = 0, errno = 0, out = \<lparr>timespec.tv_sec = 12, tv_nsec = 999999999\<rparr>\<rparr> = Inr 12999 \<and>
   nni_clock_gettimeofday strerror_sample
     \<lparr>ret = 0, errno = 0, out = \<lparr>timeval.tv_sec = 5, tv_usec = 999\<rparr>\<rparr> = Inr 5000 \<and>
   nni_clock_gettimeofday strerror_sample
     \<lparr>ret = 0, errno = 0, out = \<lparr>timeval.tv_sec = 10, tv_usec = 2000\<rparr>\<rparr> = Inr 10002 \<and>
   (\<exists>t1 t2.
      fst (nni_clock_apple strerror_sample
        \<lparr>builtin_available = False,
         clock_gettime_ret = \<lparr>ret = 0, errno = 0, out = \<lparr>timespec.tv_sec = 0, tv_nsec = 0\<rparr>\<rparr>,
         mach_absolute_time = 240000000, mach_timebase_info_kr = 0,
         time_base_info = \<lparr>numer = 125, denom = 3\<rparr>\<rparr>) = Inr t1 \<and>
      fst (nni_clock_apple strerror_sample
        \<lparr>builtin_available = False,
         clock_gettime_ret = \<lparr>ret = 0, errno = 0, out = \<lparr>timespec.tv_sec = 0, tv_nsec = 0\<rparr>\<rparr>,
         mach_absolute_time = 480000000, mach_timebase_info_kr = 0,
         time_base_info = \<lparr>numer = 125, denom = 3\<rparr>\<rparr>) = Inr t2 \<and> t1 \<le> t2) \<and>
   (\<exists>t1 t2.
      fst (nni_clock_apple strerror_sample
        \<lparr>builtin_available = True,
         clock_gettime_ret =
           \<lparr>ret = 0, errno = 0, out = \<lparr>timespec.tv_sec = 12, tv_nsec = 345678901\<rparr>\<rparr>,
         mach_absolute_time = 0, mach_timebase_info_kr = 0,
         time_base_info = \<lparr>numer = 125, denom = 3\<rparr>\<rparr>) = Inr t1 \<and>
      fst (nni_clock_apple strerror_sample
        \<lparr>builtin_available = True,
         clock_gettime_ret =
           \<lparr>ret = 0, errno = 0, out = \<lparr>timespec.tv_sec = 12, tv_nsec = 999999999\<rparr>\<rparr>,
         mach_absolute_time = 0, mach_timebase_info_kr = 0,
         time_base_info = \<lparr>numer = 125, denom = 3\<rparr>\<rparr>) = Inr t2 \<and> t1 \<le> t2)"
  using nni_clock_monotone
    [of "\<lparr>ret = 0, errno = 0, out = \<lparr>timespec.tv_sec = 12, tv_nsec = 345678901\<rparr>\<rparr>"
        "\<lparr>ret = 0, errno = 0, out = \<lparr>timespec.tv_sec = 12, tv_nsec = 999999999\<rparr>\<rparr>"
        strerror_sample
        "\<lparr>ret = 0, errno = 0, out = \<lparr>timeval.tv_sec = 5, tv_usec = 999\<rparr>\<rparr>"
        "\<lparr>ret = 0, errno = 0, out = \<lparr>timeval.tv_sec = 10, tv_usec = 2000\<rparr>\<rparr>"
        "\<lparr>builtin_available = False,
         clock_gettime_ret = \<lparr>ret = 0, errno = 0, out = \<lparr>timespec.tv_sec = 0, tv_nsec = 0\<rparr>\<rparr>,
         mach_absolute_time = 240000000, mach_timebase_info_kr = 0,
         time_base_info = \<lparr>numer = 125, denom = 3\<rparr>\<rparr>"
        "\<lparr>builtin_available = False,
         clock_gettime_ret = \<lparr>ret = 0, errno = 0, out = \<lparr>timespec.tv_sec = 0, tv_nsec = 0\<rparr>\<rparr>,
         mach_absolute_time = 480000000, mach_timebase_info_kr = 0,
         time_base_info = \<lparr>numer = 125, denom = 3\<rparr>\<rparr>"
        "\<lparr>builtin_available = True,
         clock_gettime_ret =
           \<lparr>ret = 0, errno = 0, out = \<lparr>timespec.tv_sec = 12, tv_nsec = 345678901\<rparr>\<rparr>,
         mach_absolute_time = 0, mach_timebase_info_kr = 0,
         time_base_info = \<lparr>numer = 125, denom = 3\<rparr>\<rparr>"
        "\<lparr>builtin_available = True,
         clock_gettime_ret =
           \<lparr>ret = 0, errno = 0, out = \<lparr>timespec.tv_sec = 12, tv_nsec = 999999999\<rparr>\<rparr>,
         mach_absolute_time = 0, mach_timebase_info_kr = 0,
         time_base_info = \<lparr>numer = 125, denom = 3\<rparr>\<rparr>"]
  by (simp add: nni_clock_def nni_clock_gettimeofday_def sdiv_word_def signed_divide_int_def
      timespec_ns_def timeval_us_def)

text \<open>
  With \<^verbatim>\<open>gettimeofday\<close>, a time of day set back from 10 s to 5 s between two calls makes
  the second call return less than the first.
\<close>

theorem wall_clock_set_back:
  "nni_clock_gettimeofday strerror_sample
     \<lparr>ret = 0, errno = 0, out = \<lparr>timeval.tv_sec = 10, tv_usec = 0\<rparr>\<rparr> = Inr 10000 \<and>
   nni_clock_gettimeofday strerror_sample
     \<lparr>ret = 0, errno = 0, out = \<lparr>timeval.tv_sec = 5, tv_usec = 0\<rparr>\<rparr> = Inr 5000 \<and>
   \<not> ((10000 :: nni_time) \<le> 5000)"
  by (simp add: nni_clock_gettimeofday_def sdiv_word_def)

text \<open>
  On the tick path a product that passes \<open>2 ^ 64\<close> wraps: with the scale factor
  1000000000 / 33333335, one tick more takes the clock from 55340 back to 0.
\<close>

lemma tick_product_wraps:
  "fst (nni_clock_apple strerror_sample
      \<lparr>builtin_available = False,
       clock_gettime_ret = \<lparr>ret = 0, errno = 0, out = \<lparr>timespec.tv_sec = 0, tv_nsec = 0\<rparr>\<rparr>,
       mach_absolute_time = 18446744073, mach_timebase_info_kr = 0,
       time_base_info = \<lparr>numer = 1000000000, denom = 33333335\<rparr>\<rparr>) = Inr 55340 \<and>
   fst (nni_clock_apple strerror_sample
      \<lparr>builtin_available = False,
       clock_gettime_ret = \<lparr>ret = 0, errno = 0, out = \<lparr>timespec.tv_sec = 0, tv_nsec = 0\<rparr>\<rparr>,
       mach_absolute_time = 18446744074, mach_timebase_info_kr = 0,
       time_base_info = \<lparr>numer = 1000000000, denom = 33333335\<rparr>\<rparr>) = Inr 0 \<and>
   \<not> (55340 :: nni_time) \<le> 0"
  by (simp add: nni_clock_apple_def)

text \<open>
  Claim C1. On the hardware-tick path the conversion should give
  \<open>ticks * numer / denom / 1000000\<close>. The code divides by 10000000: for 3000000000 ticks
  of one nanosecond it returns 300, where the claim asks for 3000.
\<close>

theorem nni_clock_apple_divisor:
  "fst (nni_clock_apple strerror_sample
      \<lparr>builtin_available = False,
       clock_gettime_ret = \<lparr>ret = 0, errno = 0, out = \<lparr>timespec.tv_sec = 0, tv_nsec = 0\<rparr>\<rparr>,
       mach_absolute_time = 3000000000, mach_timebase_info_kr = 0,
       time_base_info = \<lparr>numer = 1, denom = 1\<rparr>\<rparr>) = Inr 300 \<and>
   (3000000000 * 1 div 1 div 1000000 :: int) = 3000"
  by (simp add: nni_clock_apple_def)

lemma count_timebase_reads:
  "count_list (snd (nni_clock_apple strerror e)) Mach_timebase_info =
     (if builtin_available e then 0 else 1)"
  by (simp add: nni_clock_apple_def Let_def)

text \<open>
  Claim C6, as the code has it. The claim has the scale factor read once and kept. The
  code keeps nothing: every call that takes the tick path reads the scale factor, exactly
  once, and a call that takes the \<^verbatim>\<open>clock_gettime\<close> path does not read it.
\<close>

theorem scale_factor_read_every_call:
  "count_list (nni_clock_apple_calls strerror es) Mach_timebase_info =
     length (filter (\<lambda>e. \<not> builtin_available e) es)"
  by (induction es) (simp_all add: nni_clock_apple_calls_def count_timebase_reads)

theorem scale_factor_read_every_call_witness:
  "count_list (nni_clock_apple_calls strerror_sample
     [\<lparr>builtin_available = False,
       clock_gettime_ret = \<lparr>ret = 0, errno = 0, out = \<lparr>timespec.tv_sec = 0, tv_nsec = 0\<rparr>\<rparr>,
       mach_absolute_time = 1, mach_timebase_info_kr = 0,
       time_base_info = \<lparr>numer = 125, denom = 3\<rparr>\<rparr>,
      \<lparr>builtin_available = True,
       clock_gettime_ret = \<lparr>ret = 0, errno = 0, out = \<lparr>timespec.tv_sec = 0, tv_nsec = 0\<rparr>\<rparr>,
       mach_absolute_time = 2, mach_timebase_info_kr = 0,
       time_base_info = \<lparr>numer = 125, denom = 3\<rparr>\<rparr>,
      \<lparr>builtin_available = False,
       clock_gettime_ret = \<lparr>ret = 0, errno = 0, out = \<lparr>timespec.tv_sec = 0, tv_nsec = 0\<rparr>\<rparr>,
       mach_absolute_time = 3, mach_timebase_info_kr = 0,
       time_base_info = \<lparr>numer = 125, denom = 3\<rparr>\<rparr>]) Mach_timebase_info = 2"
  using scale_factor_read_every_call
    [of strerror_sample
      "[\<lparr>builtin_available = False,
       clock_gettime_ret = \<lparr>ret = 0, errno = 0, out = \<lparr>timespec.tv_sec = 0, tv_nsec = 0\<rparr>\<rparr>,
       mach_absolute_time = 1, mach_timebase_info_kr = 0,
       time_base_info = \<lparr>numer = 125, denom = 3\<rparr>\<rparr>,
      \<lparr>builtin_available = True,
       clock_gettime_ret = \<lparr>ret = 0, errno = 0, out = \<lparr>timespec.tv_sec = 0, tv_nsec = 0\<rparr>\<rparr>,
       mach_absolute_time = 2, mach_timebase_info_kr = 0,
       time_base_info = \<lparr>numer = 125, denom = 3\<rparr>\<rparr>,
      \<lparr>builtin_available = False,
       clock_gettime_ret = \<lparr>ret = 0, errno = 0, out = \<lparr>timespec.tv_sec = 0, tv_nsec = 0\<rparr>\<rparr>,
       mach_absolute_time = 3, mach_timebase_info_kr = 0,
       time_base_info = \<lparr>numer = 125, denom = 3\<rparr>\<rparr>]"]
  by simp

text \<open>Two calls on the tick path read the scale factor twice.\<close>

theorem scale_factor_read_twice:
  "count_list (nni_clock_apple_calls strerror_sample
     [\<lparr>builtin_available = False,
       clock_gettime_ret = \<lparr>ret = 0, errno = 0, out = \<lparr>timespec.tv_sec = 0, tv_nsec = 0\<rparr>\<rparr>,
       mach_absolute_time = 1, mach_timebase_info_kr = 0,
       time_base_info = \<lparr>numer = 125, denom = 3\<rparr>\<rparr>,
      \<lparr>builtin_available = False,
       clock_gettime_ret = \<lparr>ret = 0, errno = 0, out = \<lparr>timespec.tv_sec = 0, tv_nsec = 0\<rparr>\<rparr>,
       mach_absolute_time = 2, mach_timebase_info_kr = 0,
       time_base_info = \<lparr>numer = 125, denom = 3\<rparr>\<rparr>]) Mach_timebase_info = 2 \<and>
   \<not> (2 :: nat) \<le> 1"
  by (simp add: nni_clock_apple_calls_def nni_clock_apple_def)

lemma nni_clock_panics:
  "ret r \<noteq> 0 \<Longrightarrow>
     nni_clock strerror r = Inl (Panic (''clock_gettime failed: '' @ strerror (errno r)))"
  by (simp add: nni_clock_def nni_panic_def)

lemma nni_clock_gettimeofday_panics:
  "ret r \<noteq> 0 \<Longrightarrow>
     nni_clock_gettimeofday strerror r =
       Inl (Panic (''gettimeofday failed: '' @ strerror (errno r)))"
  by (simp add: nni_clock_gettimeofday_def nni_panic_def)

lemma nni_clock_returns_after_success:
  "nni_clock strerror r = Inr t \<Longrightarrow> ret r = 0"
  by (simp add: nni_clock_def split: if_splits)

lemma nni_clock_gettimeofday_returns_after_success:
  "nni_clock_gettimeofday strerror r = Inr t \<Longrightarrow> ret r = 0"
  by (simp add: nni_clock_gettimeofday_def split: if_splits)

text \<open>
  Claim C7. In every variant, when the call that asks the platform for the time fails,
  the clock neither returns a value nor an error: it ends in \<^verbatim>\<open>nni_panic\<close>, with a
  message that ends with the description \<^verbatim>\<open>strerror\<close> gives of \<^verbatim>\<open>errno\<close>; so a value
  returned comes from a call that returned 0. This holds of \<^verbatim>\<open>clock_gettime\<close> off Apple
  and on Apple, and of \<^verbatim>\<open>gettimeofday\<close>. The tick path on Apple asks through
  \<^verbatim>\<open>mach_absolute_time\<close>, which returns the count and has no way to report a failure, and
  through \<^verbatim>\<open>mach_timebase_info\<close>; it makes no other platform call.
\<close>

theorem clock_failure_panics:
  "(ret r \<noteq> 0 \<longrightarrow>
      nni_clock strerror r = Inl (Panic (''clock_gettime failed: '' @ strerror (errno r)))) \<and>
   (ret g \<noteq> 0 \<longrightarrow>
      nni_clock_gettimeofday strerror g =
        Inl (Panic (''gettimeofday failed: '' @ strerror (errno g)))) \<and>
   (builtin_available e \<and> ret (clock_gettime_ret e) \<noteq> 0 \<longrightarrow>
      nni_clock_apple strerror e =
        (Inl (Panic (''clock_gettime failed: '' @ strerror (errno (clock_gettime_ret e)))),
         [Clock_gettime])) \<and>
   (nni_clock strerror r = Inr t \<longrightarrow> ret r = 0) \<and>
   (nni_clock_gettimeofday strerror g = Inr t \<longrightarrow> ret g = 0) \<and>
   (builtin_available e \<and> fst (nni_clock_apple strerror e) = Inr t \<longrightarrow>
      ret (clock_gettime_ret e) = 0) \<and>
   (\<not> builtin_available e \<longrightarrow>
      snd (nni_clock_apple strerror e) = [Mach_absolute_time, Mach_timebase_info])"
proof -
  have "nni_clock_apple strerror e =
        (Inl (Panic (''clock_gettime failed: '' @ strerror (errno (clock_gettime_ret e)))),
         [Clock_gettime])"
    if "builtin_available e" "ret (clock_gettime_ret e) \<noteq> 0"
    using that by (simp add: nni_clock_apple_def nni_clock_panics)
  moreover have "ret (clock_gettime_ret e) = 0"
    if "builtin_available e" "fst (nni_clock_apple strerror e) = Inr t"
    using that by (simp add: nni_clock_apple_def nni_clock_returns_after_success)
  moreover have "snd (nni_clock_apple strerror e) = [Mach_absolute_time, Mach_timebase_info]"
    if "\<not> builtin_available e"
    using that by (simp add: nni_clock_apple_def Let_def)
  ultimately show ?thesis
    using nni_clock_panics [of r strerror] nni_clock_gettimeofday_panics [of g strerror]
      nni_clock_returns_after_success [of strerror r t]
      nni_clock_gettimeofday_returns_after_success [of strerror g t]
    by blast
qed

theorem clock_failure_panics_witness:
  "nni_clock strerror_sample
     \<lparr>ret = - 1, errno = 22, out = \<lparr>timespec.tv_sec = 0, tv_nsec = 0\<rparr>\<rparr> =
     Inl (Panic ''clock_gettime failed: Invalid argument'') \<and>
   nni_clock_gettimeofday strerror_sample
     \<lparr>ret = - 1, errno = 14, out = \<lparr>timeval.tv_sec = 0, tv_usec = 0\<rparr>\<rparr> =
     Inl (Panic ''gettimeofday failed: Bad address'') \<and>
   nni_clock_apple strerror_sample
     \<lparr>builtin_available = True,
      clock_gettime_ret = \<lparr>ret = - 1, errno = 22, out = \<lparr>timespec.tv_sec = 0, tv_nsec = 0\<rparr>\<rparr>,
      mach_absolute_time = 0, mach_timebase_info_kr = 0,
      time_base_info = \<lparr>numer = 1, denom = 1\<rparr>\<rparr> =
     (Inl (Panic ''clock_gettime failed: Invalid argument''), [Clock_gettime])"
  using clock_failure_panics
    [of "\<lparr>ret = - 1, errno = 22, out = \<lparr>timespec.tv_sec = 0, tv_nsec = 0\<rparr>\<rparr>"
        strerror_sample
        "\<lparr>ret = - 1, errno = 14, out = \<lparr>timeval.tv_sec = 0, tv_usec = 0\<rparr>\<rparr>"
        "\<lparr>builtin_available = True,
          clock_gettime_ret = \<lparr>ret = - 1, errno = 22, out = \<lparr>timespec.tv_sec = 0, tv_nsec = 0\<rparr>\<rparr>,
          mach_absolute_time = 0, mach_timebase_info_kr = 0,
          time_base_info = \<lparr>numer = 1, denom = 1\<rparr>\<rparr>"]
  by (simp add: strerror_sample_def)

subsection \<open>The sleep on nanosleep\<close>

lemma nni_msleep_loop_zero:
  "nni_msleep_loop rs \<lparr>timespec.tv_sec = 0, tv_nsec = 0\<rparr> = ([], Some ())"
  by (cases rs) simp_all

lemma nni_msleep_loop_first:
  "timespec.tv_sec ts \<noteq> 0 \<or> tv_nsec ts \<noteq> 0 \<Longrightarrow>
     \<exists>reqs. fst (nni_msleep_loop rs ts) = ts # reqs"
  by (cases rs) (auto simp: split_def Let_def)

lemma nni_msleep_loop_trace:
  "nni_msleep_loop rs ts = (reqs, res) \<Longrightarrow> Suc i < length reqs \<Longrightarrow>
     i < length rs \<and> ret (rs ! i) \<noteq> 0 \<and> reqs ! Suc i = out (rs ! i)"
proof (induction rs arbitrary: ts reqs res i)
  case Nil
  then show ?case by (auto split: if_splits)
next
  case (Cons r rs)
  show ?case
  proof (cases "(timespec.tv_sec ts \<noteq> 0 \<or> tv_nsec ts \<noteq> 0) \<and> ret r \<noteq> 0")
    case False
    with Cons.prems show ?thesis by (auto split: if_splits)
  next
    case True
    obtain reqs' res' where l: "nni_msleep_loop rs (out r) = (reqs', res')"
      by (cases "nni_msleep_loop rs (out r)")
    with True Cons.prems have reqs: "reqs = ts # reqs'" by auto
    show ?thesis
    proof (cases i)
      case 0
      with reqs Cons.prems(2) have "reqs' \<noteq> []" by auto
      then have "timespec.tv_sec (out r) \<noteq> 0 \<or> tv_nsec (out r) \<noteq> 0"
        using l by (cases rs) (auto split: if_splits)
      from nni_msleep_loop_first [OF this, of rs] l have "hd reqs' = out r" by auto
      with \<open>reqs' \<noteq> []\<close> reqs 0 True show ?thesis by (cases reqs') auto
    next
      case (Suc j)
      with reqs Cons.prems(2) have "Suc j < length reqs'" by simp
      from Cons.IH [OF l this] reqs Suc show ?thesis by simp
    qed
  qed
qed

lemma nni_msleep_loop_returns:
  "\<exists>r \<in> set rs. ret r = 0 \<Longrightarrow> snd (nni_msleep_loop rs ts) = Some ()"
  by (induction rs arbitrary: ts) (auto simp: split_def Let_def)

lemma msleep_timespec_ns:
  assumes "0 \<le> sint ms"
  shows "timespec_ns (msleep_timespec ms) = sint ms * 1000000"
proof -
  let ?m = "sint ms"
  have lt: "?m < 2 ^ 31" by (rule sint_lt_32)
  have q: "?m sdiv sint (1000 :: 32 word) = ?m div 1000"
    using assms by (simp add: sdiv_int_nonneg)
  have r: "?m smod sint (1000 :: 32 word) = ?m mod 1000"
    using assms by (simp add: signed_modulo_int_def sgn_if)
  have "sint (sdiv_word ms 1000) = ?m div 1000"
    unfolding sdiv_word_def q using assms lt by (intro sint_word_of_int_32) simp_all
  then have sec: "sint (timespec.tv_sec (msleep_timespec ms)) = ?m div 1000"
    by (simp add: msleep_timespec_def sint_scast_32_64)
  have "smod_word ms 1000 * 1000000 = word_of_int (?m mod 1000 * 1000000)"
    unfolding smod_word_def r by simp
  moreover have "sint (word_of_int (?m mod 1000 * 1000000) :: 32 word) = ?m mod 1000 * 1000000"
    by (intro sint_word_of_int_32) simp_all
  ultimately have nsec: "sint (tv_nsec (msleep_timespec ms)) = ?m mod 1000 * 1000000"
    by (simp add: msleep_timespec_def sint_scast_32_64)
  show ?thesis unfolding timespec_ns_def sec nsec by presburger
qed

lemma timespec_ns_zero:
  "\<not> (timespec.tv_sec ts \<noteq> 0 \<or> tv_nsec ts \<noteq> 0) \<Longrightarrow> timespec_ns ts = 0"
  by (simp add: timespec_ns_def)

lemma nni_msleep_loop_elapsed:
  "nni_msleep_loop rs ts = (reqs, Some ()) \<Longrightarrow> nanosleep_conforms reqs rs \<Longrightarrow>
     timespec_ns ts \<le> int (nanosleep_elapsed rs reqs)"
proof (induction rs arbitrary: ts reqs)
  case Nil
  then show ?case by (auto simp: timespec_ns_def nanosleep_elapsed_def split: if_splits)
next
  case (Cons r rs)
  show ?case
  proof (cases "timespec.tv_sec ts \<noteq> 0 \<or> tv_nsec ts \<noteq> 0")
    case False
    then have "timespec_ns ts = 0" by (rule timespec_ns_zero)
    then show ?thesis by simp
  next
    case nz: True
    show ?thesis
    proof (cases "ret r = 0")
      case True
      with nz Cons.prems show ?thesis
        by (auto simp: nanosleep_elapsed_def nanosleep_conforms_def nanosleep_answer_ok_def)
    next
      case False
      obtain reqs' res' where l: "nni_msleep_loop rs (out r) = (reqs', res')"
        by (cases "nni_msleep_loop rs (out r)")
      with nz False Cons.prems(1) have reqs: "reqs = ts # reqs'" and res: "res' = Some ()"
        by auto
      from False Cons.prems(2) reqs
      have c: "timespec_ns ts \<le> int (elapsed r) + timespec_ns (out r)"
        and c': "nanosleep_conforms reqs' rs"
        by (auto simp: nanosleep_conforms_def nanosleep_answer_ok_def)
      from Cons.IH [OF l [unfolded res] c']
      have "timespec_ns (out r) \<le> int (nanosleep_elapsed rs reqs')" .
      with c reqs show ?thesis by (simp add: nanosleep_elapsed_def)
    qed
  qed
qed

lemma nanosleep_sleep_ns:
  assumes "0 \<le> sint ms" and "nni_msleep rs ms = (reqs, Some ())"
    and "nanosleep_conforms reqs rs"
  shows "sint ms * 1000000 \<le> int (nanosleep_elapsed rs reqs)"
proof -
  from assms(2) have "nni_msleep_loop rs (msleep_timespec ms) = (reqs, Some ())"
    by (simp add: nni_msleep_def)
  from nni_msleep_loop_elapsed [OF this assms(3)] msleep_timespec_ns [OF assms(1)]
  show ?thesis by simp
qed

lemma nanosleep_clock_bound:
  assumes h: "0 \<le> sint ms" "nni_msleep rs ms = (reqs, Some ())" "nanosleep_conforms reqs rs"
      "t0 + nanosleep_elapsed rs reqs \<le> t1" "int t1 div 1000000 < 2 ^ 64"
  shows "\<exists>before after.
       nni_clock strerror (clock_gettime_at t0) = Inr before \<and>
       nni_clock strerror (clock_gettime_at t1) = Inr after \<and>
       before \<le> after \<and> sint ms \<le> uint (after - before)"
proof -
  from nanosleep_sleep_ns [OF h(1,2,3)] h(4)
  have le: "int t0 + sint ms * 1000000 \<le> int t1" by linarith
  have "(int t0 + sint ms * 1000000) div 1000000 \<le> int t1 div 1000000"
    using le by (rule zdiv_mono1) simp
  then have d: "int t0 div 1000000 + sint ms \<le> int t1 div 1000000" by simp
  with h(1,5) have "int t0 div 1000000 < 2 ^ 64" by linarith
  from clock_gettime_at_ms [OF this, of strerror] obtain before
    where b: "nni_clock strerror (clock_gettime_at t0) = Inr before"
      "uint before = int t0 div 1000000" by blast
  from clock_gettime_at_ms [OF h(5), of strerror] obtain after
    where a: "nni_clock strerror (clock_gettime_at t1) = Inr after"
      "uint after = int t1 div 1000000" by blast
  from d b(2) a(2) have "uint before + sint ms \<le> uint after" by simp
  from word_diff_ge [OF this h(1)] b(1) a(1) show ?thesis by blast
qed

lemma msleep_timespec_nonzero:
  assumes "0 < sint ms"
  shows "timespec.tv_sec (msleep_timespec ms) \<noteq> 0 \<or> tv_nsec (msleep_timespec ms) \<noteq> 0"
proof (rule ccontr)
  assume "\<not> ?thesis"
  then have "timespec_ns (msleep_timespec ms) = 0" by (rule timespec_ns_zero)
  moreover from assms have "0 \<le> sint ms" by simp
  then have "timespec_ns (msleep_timespec ms) = sint ms * 1000000" by (rule msleep_timespec_ns)
  ultimately show False using assms by simp
qed

lemma nni_msleep_loop_step:
  "nni_msleep_loop rs ts = (reqs, res) \<Longrightarrow> i < length reqs \<Longrightarrow> i < length rs \<Longrightarrow>
     (ret (rs ! i) = 0 \<longrightarrow> length reqs = Suc i \<and> res = Some ()) \<and>
     (ret (rs ! i) \<noteq> 0 \<and> (timespec.tv_sec (out (rs ! i)) \<noteq> 0 \<or> tv_nsec (out (rs ! i)) \<noteq> 0) \<longrightarrow>
        Suc i < length reqs \<and> reqs ! Suc i = out (rs ! i)) \<and>
     (ret (rs ! i) \<noteq> 0 \<and> \<not> (timespec.tv_sec (out (rs ! i)) \<noteq> 0 \<or> tv_nsec (out (rs ! i)) \<noteq> 0) \<longrightarrow>
        length reqs = Suc i \<and> res = Some ())"
proof (induction rs arbitrary: ts reqs res i)
  case Nil
  then show ?case by simp
next
  case (Cons r rs)
  from Cons.prems(2) have "reqs \<noteq> []" by auto
  with Cons.prems(1) have nz: "timespec.tv_sec ts \<noteq> 0 \<or> tv_nsec ts \<noteq> 0"
    by (auto split: if_splits)
  show ?case
  proof (cases "ret r = 0")
    case True
    with nz Cons.prems(1) have "reqs = [ts]" "res = Some ()" by auto
    with Cons.prems(2) True show ?thesis by simp
  next
    case False
    obtain reqs' res' where l: "nni_msleep_loop rs (out r) = (reqs', res')"
      by (cases "nni_msleep_loop rs (out r)")
    with nz False Cons.prems(1) have reqs: "reqs = ts # reqs'" and res: "res = res'" by auto
    show ?thesis
    proof (cases i)
      case 0
      show ?thesis
      proof (cases "timespec.tv_sec (out r) \<noteq> 0 \<or> tv_nsec (out r) \<noteq> 0")
        case True
        from nni_msleep_loop_first [OF True, of rs] l obtain reqs'' where "reqs' = out r # reqs''"
          by auto
        with reqs 0 False True show ?thesis by simp
      next
        case z: False
        then have "out r = \<lparr>timespec.tv_sec = 0, tv_nsec = 0\<rparr>" by simp
        with l nni_msleep_loop_zero [of rs] have "reqs' = []" "res' = Some ()" by simp_all
        with reqs res 0 False z show ?thesis by simp
      qed
    next
      case (Suc j)
      with reqs Cons.prems(2,3) have "j < length reqs'" "j < length rs" by simp_all
      from Cons.IH [OF l this] reqs res Suc show ?thesis by simp
    qed
  qed
qed

lemma nni_msleep_loop_length:
  "nni_msleep_loop rs ts = (reqs, res) \<Longrightarrow>
     length reqs \<le> Suc (length rs) \<and> (res = None \<longleftrightarrow> length rs < length reqs)"
proof (induction rs arbitrary: ts reqs res)
  case Nil
  then show ?case by (auto split: if_splits)
next
  case (Cons r rs)
  obtain reqs' res' where l: "nni_msleep_loop rs (out r) = (reqs', res')"
    by (cases "nni_msleep_loop rs (out r)")
  from Cons.IH [OF l] Cons.prems l show ?case
    by (auto split: if_splits)
qed

lemma nni_msleep_loop_start:
  "nni_msleep_loop rs ts = (reqs, res) \<Longrightarrow>
     (if timespec.tv_sec ts \<noteq> 0 \<or> tv_nsec ts \<noteq> 0 then reqs \<noteq> [] \<and> hd reqs = ts
      else reqs = [] \<and> res = Some ())"
  by (cases rs) (auto simp: split_def Let_def split: if_splits)

text \<open>
  Claim C4. The sleep first calls \<^verbatim>\<open>nanosleep\<close> with the duration (whenever the duration
  is positive). When a call returns early with time left in the buffer, the loop calls
  \<^verbatim>\<open>nanosleep\<close> again, with exactly what that call left in the buffer; it stops at the
  first call that returns 0 or leaves nothing in the buffer, and then the sleep returns
  normally. Its only results are returning and, when the script ends with a call
  unanswered, not having returned yet: there is no error among them.
\<close>

theorem nni_msleep_retries_remainder:
  assumes "nni_msleep rs ms = (reqs, res)"
  shows "(reqs \<noteq> [] \<longrightarrow> hd reqs = msleep_timespec ms) \<and>
         (\<forall>i. Suc i < length reqs \<longrightarrow>
            i < length rs \<and> ret (rs ! i) \<noteq> 0 \<and> reqs ! Suc i = out (rs ! i)) \<and>
         ((\<exists>r \<in> set rs. ret r = 0) \<longrightarrow> res = Some ()) \<and>
         (0 < sint ms \<longrightarrow> reqs \<noteq> [] \<and> timespec_ns (hd reqs) = sint ms * 1000000) \<and>
         (\<forall>i. i < length reqs \<and> i < length rs \<longrightarrow>
            (ret (rs ! i) = 0 \<longrightarrow> length reqs = Suc i \<and> res = Some ()) \<and>
            (ret (rs ! i) \<noteq> 0 \<and>
             (timespec.tv_sec (out (rs ! i)) \<noteq> 0 \<or> tv_nsec (out (rs ! i)) \<noteq> 0) \<longrightarrow>
               Suc i < length reqs \<and> reqs ! Suc i = out (rs ! i)) \<and>
            (ret (rs ! i) \<noteq> 0 \<and>
             \<not> (timespec.tv_sec (out (rs ! i)) \<noteq> 0 \<or> tv_nsec (out (rs ! i)) \<noteq> 0) \<longrightarrow>
               length reqs = Suc i \<and> res = Some ())) \<and>
         length reqs \<le> Suc (length rs) \<and>
         (res = None \<longleftrightarrow> length rs < length reqs)"
proof -
  from assms have l: "nni_msleep_loop rs (msleep_timespec ms) = (reqs, res)"
    by (simp add: nni_msleep_def)
  have a: "hd reqs = msleep_timespec ms" if "reqs \<noteq> []"
    using nni_msleep_loop_start [OF l] that by (auto split: if_splits)
  have b: "\<forall>i. Suc i < length reqs \<longrightarrow>
      i < length rs \<and> ret (rs ! i) \<noteq> 0 \<and> reqs ! Suc i = out (rs ! i)"
    using nni_msleep_loop_trace [OF l] by blast
  have c: "res = Some ()" if "\<exists>r \<in> set rs. ret r = 0"
    using nni_msleep_loop_returns [OF that, of "msleep_timespec ms"] l by simp
  have d: "reqs \<noteq> [] \<and> timespec_ns (hd reqs) = sint ms * 1000000" if "0 < sint ms"
  proof -
    from that have "0 \<le> sint ms" by simp
    then have ns: "timespec_ns (msleep_timespec ms) = sint ms * 1000000"
      by (rule msleep_timespec_ns)
    from nni_msleep_loop_start [OF l] msleep_timespec_nonzero [OF that]
    have "reqs \<noteq> []" "hd reqs = msleep_timespec ms" by simp_all
    with ns show ?thesis by simp
  qed
  have e: "\<forall>i. i < length reqs \<and> i < length rs \<longrightarrow>
            (ret (rs ! i) = 0 \<longrightarrow> length reqs = Suc i \<and> res = Some ()) \<and>
            (ret (rs ! i) \<noteq> 0 \<and>
             (timespec.tv_sec (out (rs ! i)) \<noteq> 0 \<or> tv_nsec (out (rs ! i)) \<noteq> 0) \<longrightarrow>
               Suc i < length reqs \<and> reqs ! Suc i = out (rs ! i)) \<and>
            (ret (rs ! i) \<noteq> 0 \<and>
             \<not> (timespec.tv_sec (out (rs ! i)) \<noteq> 0 \<or> tv_nsec (out (rs ! i)) \<noteq> 0) \<longrightarrow>
               length reqs = Suc i \<and> res = Some ())"
    using nni_msleep_loop_step [OF l] by blast
  from nni_msleep_loop_length [OF l]
  have f: "length reqs \<le> Suc (length rs)" and g: "res = None \<longleftrightarrow> length rs < length reqs"
    by simp_all
  from a b c d e f g show ?thesis by blast
qed

theorem nni_msleep_retries_remainder_witness:
  "0 < sint (1500 :: nni_duration) \<and>
   nni_msleep
     [\<lparr>ret = - 1, errno = 4, out = \<lparr>timespec.tv_sec = 1, tv_nsec = 100000000\<rparr>, elapsed = 400000000\<rparr>,
      \<lparr>ret = 0, errno = 0, out = \<lparr>timespec.tv_sec = 1, tv_nsec = 100000000\<rparr>, elapsed = 1100000123\<rparr>]
     1500 =
     ([\<lparr>timespec.tv_sec = 1, tv_nsec = 500000000\<rparr>, \<lparr>timespec.tv_sec = 1, tv_nsec = 100000000\<rparr>],
      Some ()) \<and>
   msleep_timespec 1500 = \<lparr>timespec.tv_sec = 1, tv_nsec = 500000000\<rparr> \<and>
   timespec_ns \<lparr>timespec.tv_sec = 1, tv_nsec = 500000000\<rparr> = sint (1500 :: nni_duration) * 1000000"
proof -
  have e: "nni_msleep
     [\<lparr>ret = - 1, errno = 4, out = \<lparr>timespec.tv_sec = 1, tv_nsec = 100000000\<rparr>, elapsed = 400000000\<rparr>,
      \<lparr>ret = 0, errno = 0, out = \<lparr>timespec.tv_sec = 1, tv_nsec = 100000000\<rparr>, elapsed = 1100000123\<rparr>]
     1500 =
     ([\<lparr>timespec.tv_sec = 1, tv_nsec = 500000000\<rparr>, \<lparr>timespec.tv_sec = 1, tv_nsec = 100000000\<rparr>],
      Some ())"
    by (simp add: nni_msleep_def msleep_timespec_def sdiv_word_def smod_word_def
        signed_divide_int_def signed_modulo_int_def)
  have p: "0 < sint (1500 :: nni_duration)" by simp
  let ?reqs = "[\<lparr>timespec.tv_sec = 1, tv_nsec = 500000000\<rparr>,
     \<lparr>timespec.tv_sec = 1, tv_nsec = 100000000\<rparr>]"
  note t = nni_msleep_retries_remainder [OF e]
  from t have "?reqs \<noteq> [] \<longrightarrow> hd ?reqs = msleep_timespec 1500" by blast
  then have a: "msleep_timespec 1500 = \<lparr>timespec.tv_sec = 1, tv_nsec = 500000000\<rparr>" by simp
  from t have "0 < sint (1500 :: nni_duration) \<longrightarrow>
      ?reqs \<noteq> [] \<and> timespec_ns (hd ?reqs) = sint (1500 :: nni_duration) * 1000000"
    by blast
  with p have "timespec_ns (hd ?reqs) = sint (1500 :: nni_duration) * 1000000" by blast
  then have b: "timespec_ns \<lparr>timespec.tv_sec = 1, tv_nsec = 500000000\<rparr> =
      sint (1500 :: nni_duration) * 1000000"
    by (simp only: list.sel)
  from p e a b show ?thesis by blast
qed

text \<open>
  Claim C9. Whatever makes \<^verbatim>\<open>nanosleep\<close> return nonzero, the loop goes on with the
  buffer as the call left it: it calls \<^verbatim>\<open>nanosleep\<close> again with the buffer when the buffer
  is not zero, \<^verbatim>\<open>errno\<close> changes nothing, and no error comes out of the loop.
\<close>

theorem nanosleep_failure_retried:
  assumes "ret r \<noteq> 0" and "timespec.tv_sec ts \<noteq> 0 \<or> tv_nsec ts \<noteq> 0"
  shows "nni_msleep_loop (r # rs) ts =
           (ts # fst (nni_msleep_loop rs (out r)), snd (nni_msleep_loop rs (out r))) \<and>
         nni_msleep_loop (r\<lparr>errno := e\<rparr> # rs) ts = nni_msleep_loop (r # rs) ts \<and>
         (timespec.tv_sec (out r) \<noteq> 0 \<or> tv_nsec (out r) \<noteq> 0 \<longrightarrow>
           (\<exists>reqs. fst (nni_msleep_loop (r # rs) ts) = ts # out r # reqs))"
proof -
  have a: "nni_msleep_loop (r # rs) ts =
           (ts # fst (nni_msleep_loop rs (out r)), snd (nni_msleep_loop rs (out r)))"
    using assms by (simp add: split_def Let_def)
  have b: "nni_msleep_loop (r\<lparr>errno := e\<rparr> # rs) ts = nni_msleep_loop (r # rs) ts"
    using assms by (simp add: split_def Let_def)
  have c: "\<exists>reqs. fst (nni_msleep_loop (r # rs) ts) = ts # out r # reqs"
    if "timespec.tv_sec (out r) \<noteq> 0 \<or> tv_nsec (out r) \<noteq> 0"
  proof -
    from nni_msleep_loop_first [OF that, of rs]
    obtain reqs where "fst (nni_msleep_loop rs (out r)) = out r # reqs" ..
    then have "fst (nni_msleep_loop (r # rs) ts) = ts # out r # reqs"
      by (simp only: a fst_conv)
    then show ?thesis ..
  qed
  from a b c show ?thesis by blast
qed

theorem nanosleep_failure_retried_witness:
  "nni_msleep_loop
     [\<lparr>ret = - 1, errno = 22, out = \<lparr>timespec.tv_sec = 0, tv_nsec = 5\<rparr>, elapsed = 0\<rparr>,
      \<lparr>ret = - 1, errno = 4, out = \<lparr>timespec.tv_sec = 0, tv_nsec = 0\<rparr>, elapsed = 5\<rparr>]
     \<lparr>timespec.tv_sec = 1, tv_nsec = 0\<rparr> =
     ([\<lparr>timespec.tv_sec = 1, tv_nsec = 0\<rparr>, \<lparr>timespec.tv_sec = 0, tv_nsec = 5\<rparr>], Some ())"
  using nanosleep_failure_retried
    [of "\<lparr>ret = - 1, errno = 22, out = \<lparr>timespec.tv_sec = 0, tv_nsec = 5\<rparr>, elapsed = 0\<rparr>"
        "\<lparr>timespec.tv_sec = 1, tv_nsec = 0\<rparr>"
        "[\<lparr>ret = - 1, errno = 4, out = \<lparr>timespec.tv_sec = 0, tv_nsec = 0\<rparr>, elapsed = 5\<rparr>]" 4]
  by simp

subsection \<open>The sleep on poll\<close>

lemma nni_msleep_poll_loop_exit:
  "nni_msleep_poll_loop strerror gs now expire = (polls, Some (Inr ())) \<Longrightarrow>
   length gs = length polls \<Longrightarrow>
   map (nni_clock_gettimeofday strerror) gs = map Inr ts \<Longrightarrow>
   expire \<le> last (now # ts)"
proof (induction gs arbitrary: now polls ts)
  case Nil
  then show ?case by (auto split: if_splits)
next
  case (Cons g gs)
  from Cons.prems(3) obtain now' ts' where ts: "ts = now' # ts'"
    and g: "nni_clock_gettimeofday strerror g = Inr now'"
    and m: "map (nni_clock_gettimeofday strerror) gs = map Inr ts'"
    by (cases ts) auto
  from Cons.prems(2) have "polls \<noteq> []" by auto
  with Cons.prems(1) have lt: "now < expire" by (auto split: if_splits)
  obtain polls' res' where l: "nni_msleep_poll_loop strerror gs now' expire = (polls', res')"
    by (cases "nni_msleep_poll_loop strerror gs now' expire")
  with lt g Cons.prems(1) have p: "polls = ucast (expire - now) # polls'" and r: "res' = Some (Inr ())"
    by auto
  from p Cons.prems(2) have len: "length gs = length polls'" by simp
  from Cons.IH [OF l [unfolded r] len m] have "expire \<le> last (now' # ts')" .
  then show ?case by (simp add: ts)
qed

lemma poll_sleep_bound:
  assumes d: "0 \<le> sint ms"
    and readings: "map (nni_clock_gettimeofday strerror) (g0 # gs @ [g1]) = map Inr (before # ts @ [after])"
    and mono: "sorted (before # ts @ [after])"
    and run: "nni_msleep_gettimeofday strerror gs ms = (polls, Some (Inr ()))"
    and consumed: "length gs = Suc (length polls)"
    and fits: "uint (hd ts) + sint ms < 2 ^ 64"
  shows "uint before + sint ms \<le> uint after"
proof -
  from readings have "length (g0 # gs @ [g1]) = length (before # ts @ [after])"
    by (rule map_eq_imp_length_eq)
  then have len: "length gs = length ts" by simp
  with readings have m: "map (nni_clock_gettimeofday strerror) gs = map Inr ts" by simp
  from consumed obtain g gs' where gs: "gs = g # gs'" by (cases gs) auto
  with m obtain now ts' where ts: "ts = now # ts'"
    and g: "nni_clock_gettimeofday strerror g = Inr now"
    and m': "map (nni_clock_gettimeofday strerror) gs' = map Inr ts'"
    by (cases ts) auto
  from run gs g have l: "nni_msleep_poll_loop strerror gs' now (now + scast ms) = (polls, Some (Inr ()))"
    by (simp add: nni_msleep_gettimeofday_def)
  from consumed gs have "length gs' = length polls" by simp
  from nni_msleep_poll_loop_exit [OF l this m']
  have e: "now + scast ms \<le> last (now # ts')" .
  from sorted_ends [OF mono] ts have b: "before \<le> now" and a: "last (now # ts') \<le> after"
    by auto
  from fits ts d have "uint (now + scast ms) = uint now + sint ms"
    by (intro uint_add_scast) simp_all
  with e a b show ?thesis by (simp add: word_le_def)
qed

text \<open>
  Claim C3, as the code has it. Between a reading of the clock before a sleep of
  \<open>ms \<ge> 0\<close> milliseconds and a reading after it, at least \<open>ms\<close> milliseconds lie, however
  often the wait returns early. With \<^verbatim>\<open>nanosleep\<close> and the \<^verbatim>\<open>clock_gettime\<close> clock (off
  Apple, and on Apple when macOS 10.12 is available at run time): when every call of
  \<^verbatim>\<open>nanosleep\<close> keeps, for the request it was given, what POSIX promises, the monotonic
  clock has advanced by at least the time that passed inside the calls, and its later
  value in milliseconds fits 64 bits. With \<^verbatim>\<open>poll\<close> and the \<^verbatim>\<open>gettimeofday\<close> clock: when
  every reading succeeds, the readings taken before, during and after the sleep do not go
  backwards, and \<open>now + ms\<close> fits 64 bits. Nothing is said of the tick path on Apple.
\<close>

theorem sleep_lower_bound:
  "(0 \<le> sint ms \<and> nni_msleep rs ms = (reqs, Some ()) \<and> nanosleep_conforms reqs rs \<and>
    t0 + nanosleep_elapsed rs reqs \<le> t1 \<and> int t1 div 1000000 < 2 ^ 64 \<longrightarrow>
    (\<exists>before after.
       nni_clock strerror (clock_gettime_at t0) = Inr before \<and>
       nni_clock strerror (clock_gettime_at t1) = Inr after \<and>
       before \<le> after \<and> sint ms \<le> uint (after - before))) \<and>
   (0 \<le> sint ms \<and> nni_msleep rs ms = (reqs, Some ()) \<and> nanosleep_conforms reqs rs \<and>
    t0 + nanosleep_elapsed rs reqs \<le> t1 \<and> int t1 div 1000000 < 2 ^ 64 \<and>
    builtin_available e0 \<and> clock_gettime_ret e0 = clock_gettime_at t0 \<and>
    builtin_available e1 \<and> clock_gettime_ret e1 = clock_gettime_at t1 \<longrightarrow>
    (\<exists>before after.
       fst (nni_clock_apple strerror e0) = Inr before \<and>
       fst (nni_clock_apple strerror e1) = Inr after \<and>
       before \<le> after \<and> sint ms \<le> uint (after - before))) \<and>
   (0 \<le> sint ms \<and>
    map (nni_clock_gettimeofday strerror) (g0 # gs @ [g1]) = map Inr (before' # ts @ [after']) \<and>
    sorted (before' # ts @ [after']) \<and>
    nni_msleep_gettimeofday strerror gs ms = (polls, Some (Inr ())) \<and>
    length gs = Suc (length polls) \<and> uint (hd ts) + sint ms < 2 ^ 64 \<longrightarrow>
    before' \<le> after' \<and> sint ms \<le> uint (after' - before'))"
proof -
  have n: "\<exists>before after.
       nni_clock strerror (clock_gettime_at t0) = Inr before \<and>
       nni_clock strerror (clock_gettime_at t1) = Inr after \<and>
       before \<le> after \<and> sint ms \<le> uint (after - before)"
    if h: "0 \<le> sint ms" "nni_msleep rs ms = (reqs, Some ())" "nanosleep_conforms reqs rs"
      "t0 + nanosleep_elapsed rs reqs \<le> t1" "int t1 div 1000000 < 2 ^ 64"
    using h by (rule nanosleep_clock_bound)
  have a: "\<exists>before after.
       fst (nni_clock_apple strerror e0) = Inr before \<and>
       fst (nni_clock_apple strerror e1) = Inr after \<and>
       before \<le> after \<and> sint ms \<le> uint (after - before)"
    if h: "0 \<le> sint ms" "nni_msleep rs ms = (reqs, Some ())" "nanosleep_conforms reqs rs"
      "t0 + nanosleep_elapsed rs reqs \<le> t1" "int t1 div 1000000 < 2 ^ 64"
      and e: "builtin_available e0" "clock_gettime_ret e0 = clock_gettime_at t0"
        "builtin_available e1" "clock_gettime_ret e1 = clock_gettime_at t1"
  proof -
    from e have "fst (nni_clock_apple strerror e0) = nni_clock strerror (clock_gettime_at t0)"
      and "fst (nni_clock_apple strerror e1) = nni_clock strerror (clock_gettime_at t1)"
      by (simp_all add: nni_clock_apple_def)
    with n [OF h] show ?thesis by simp
  qed
  have p: "before' \<le> after' \<and> sint ms \<le> uint (after' - before')"
    if h: "0 \<le> sint ms"
      "map (nni_clock_gettimeofday strerror) (g0 # gs @ [g1]) = map Inr (before' # ts @ [after'])"
      "sorted (before' # ts @ [after'])"
      "nni_msleep_gettimeofday strerror gs ms = (polls, Some (Inr ()))"
      "length gs = Suc (length polls)" "uint (hd ts) + sint ms < 2 ^ 64"
    using word_diff_ge [OF poll_sleep_bound [OF h] h(1)] .
  from n a p show ?thesis by blast
qed

theorem sleep_lower_bound_witness:
  "0 \<le> sint (100 :: nni_duration) \<and>
   nni_msleep
     [\<lparr>ret = - 1, errno = 4, out = \<lparr>timespec.tv_sec = 0, tv_nsec = 60000000\<rparr>, elapsed = 40000000\<rparr>,
      \<lparr>ret = 0, errno = 0, out = \<lparr>timespec.tv_sec = 0, tv_nsec = 60000000\<rparr>, elapsed = 60000123\<rparr>]
     100 =
     ([\<lparr>timespec.tv_sec = 0, tv_nsec = 100000000\<rparr>, \<lparr>timespec.tv_sec = 0, tv_nsec = 60000000\<rparr>],
      Some ()) \<and>
   nanosleep_conforms
     [\<lparr>timespec.tv_sec = 0, tv_nsec = 100000000\<rparr>, \<lparr>timespec.tv_sec = 0, tv_nsec = 60000000\<rparr>]
     [\<lparr>ret = - 1, errno = 4, out = \<lparr>timespec.tv_sec = 0, tv_nsec = 60000000\<rparr>, elapsed = 40000000\<rparr>,
      \<lparr>ret = 0, errno = 0, out = \<lparr>timespec.tv_sec = 0, tv_nsec = 60000000\<rparr>, elapsed = 60000123\<rparr>] \<and>
   (\<exists>before after.
      nni_clock strerror_sample (clock_gettime_at 5000000000) = Inr before \<and>
      nni_clock strerror_sample (clock_gettime_at 5100000123) = Inr after \<and>
      before \<le> after \<and> sint (100 :: nni_duration) \<le> uint (after - before)) \<and>
   (\<exists>before after.
      fst (nni_clock_apple strerror_sample
        \<lparr>builtin_available = True, clock_gettime_ret = clock_gettime_at 5000000000,
         mach_absolute_time = 0, mach_timebase_info_kr = 0,
         time_base_info = \<lparr>numer = 1, denom = 1\<rparr>\<rparr>) = Inr before \<and>
      fst (nni_clock_apple strerror_sample
        \<lparr>builtin_available = True, clock_gettime_ret = clock_gettime_at 5100000123,
         mach_absolute_time = 0, mach_timebase_info_kr = 0,
         time_base_info = \<lparr>numer = 1, denom = 1\<rparr>\<rparr>) = Inr after \<and>
      before \<le> after \<and> sint (100 :: nni_duration) \<le> uint (after - before)) \<and>
   map (nni_clock_gettimeofday strerror_sample)
     (\<lparr>ret = 0, errno = 0, out = \<lparr>timeval.tv_sec = 50, tv_usec = 0\<rparr>\<rparr> #
      [\<lparr>ret = 0, errno = 0, out = \<lparr>timeval.tv_sec = 50, tv_usec = 1000\<rparr>\<rparr>,
       \<lparr>ret = 0, errno = 0, out = \<lparr>timeval.tv_sec = 50, tv_usec = 60000\<rparr>\<rparr>,
       \<lparr>ret = 0, errno = 0, out = \<lparr>timeval.tv_sec = 50, tv_usec = 101000\<rparr>\<rparr>] @
      [\<lparr>ret = 0, errno = 0, out = \<lparr>timeval.tv_sec = 50, tv_usec = 102000\<rparr>\<rparr>]) =
     map Inr (50000 # [50001, 50060, 50101] @ [50102]) \<and>
   nni_msleep_gettimeofday strerror_sample
     [\<lparr>ret = 0, errno = 0, out = \<lparr>timeval.tv_sec = 50, tv_usec = 1000\<rparr>\<rparr>,
      \<lparr>ret = 0, errno = 0, out = \<lparr>timeval.tv_sec = 50, tv_usec = 60000\<rparr>\<rparr>,
      \<lparr>ret = 0, errno = 0, out = \<lparr>timeval.tv_sec = 50, tv_usec = 101000\<rparr>\<rparr>]
     100 = ([100, 41], Some (Inr ())) \<and>
   (50000 :: nni_time) \<le> 50102 \<and> sint (100 :: nni_duration) \<le> uint (50102 - 50000 :: nni_time)"
proof -
  let ?rs = "[\<lparr>ret = - 1, errno = 4, out = \<lparr>timespec.tv_sec = 0, tv_nsec = 60000000\<rparr>, elapsed = 40000000\<rparr>,
      \<lparr>ret = 0, errno = 0, out = \<lparr>timespec.tv_sec = 0, tv_nsec = 60000000\<rparr>, elapsed = 60000123\<rparr>]"
  let ?reqs = "[\<lparr>timespec.tv_sec = 0, tv_nsec = 100000000\<rparr>, \<lparr>timespec.tv_sec = 0, tv_nsec = 60000000\<rparr>]"
  let ?e0 = "\<lparr>builtin_available = True, clock_gettime_ret = clock_gettime_at 5000000000,
         mach_absolute_time = 0, mach_timebase_info_kr = 0,
         time_base_info = \<lparr>numer = 1, denom = 1\<rparr>\<rparr>"
  let ?e1 = "\<lparr>builtin_available = True, clock_gettime_ret = clock_gettime_at 5100000123,
         mach_absolute_time = 0, mach_timebase_info_kr = 0,
         time_base_info = \<lparr>numer = 1, denom = 1\<rparr>\<rparr>"
  let ?g0 = "\<lparr>ret = 0, errno = 0, out = \<lparr>timeval.tv_sec = 50, tv_usec = 0\<rparr>\<rparr>"
  let ?gs = "[\<lparr>ret = 0, errno = 0, out = \<lparr>timeval.tv_sec = 50, tv_usec = 1000\<rparr>\<rparr>,
      \<lparr>ret = 0, errno = 0, out = \<lparr>timeval.tv_sec = 50, tv_usec = 60000\<rparr>\<rparr>,
      \<lparr>ret = 0, errno = 0, out = \<lparr>timeval.tv_sec = 50, tv_usec = 101000\<rparr>\<rparr>]"
  let ?g1 = "\<lparr>ret = 0, errno = 0, out = \<lparr>timeval.tv_sec = 50, tv_usec = 102000\<rparr>\<rparr>"
  have ts: "msleep_timespec 100 = \<lparr>timespec.tv_sec = 0, tv_nsec = 100000000\<rparr>"
    by (simp add: msleep_timespec_def sdiv_word_def smod_word_def
        signed_divide_int_def signed_modulo_int_def)
  have d: "0 \<le> sint (100 :: nni_duration)" by simp
  have r: "nni_msleep ?rs 100 = (?reqs, Some ())"
    by (simp add: nni_msleep_def ts)
  have c: "nanosleep_conforms ?reqs ?rs"
    by (simp add: nanosleep_conforms_def nanosleep_answer_ok_def timespec_ns_def)
  have e: "(5000000000 :: nat) + nanosleep_elapsed ?rs ?reqs \<le> 5100000123"
    by (simp add: nanosleep_elapsed_def)
  have f: "int 5100000123 div 1000000 < 2 ^ 64" by simp
  have b0: "builtin_available ?e0" "clock_gettime_ret ?e0 = clock_gettime_at 5000000000"
    and b1: "builtin_available ?e1" "clock_gettime_ret ?e1 = clock_gettime_at 5100000123"
    by simp_all
  have m: "map (nni_clock_gettimeofday strerror_sample) (?g0 # ?gs @ [?g1]) =
      map Inr (50000 # [50001, 50060, 50101] @ [50102])"
    by (simp add: nni_clock_gettimeofday_def sdiv_word_def signed_divide_int_def)
  have s: "sorted ((50000 :: nni_time) # [50001, 50060, 50101] @ [50102])" by simp
  have p: "nni_msleep_gettimeofday strerror_sample ?gs 100 = ([100, 41], Some (Inr ()))"
    by (simp add: nni_msleep_gettimeofday_def nni_clock_gettimeofday_def sdiv_word_def
        signed_divide_int_def)
  have l: "length ?gs = Suc (length [100 :: 32 word, 41])" by simp
  have w: "uint (hd [50001 :: nni_time, 50060, 50101]) + sint (100 :: nni_duration) < 2 ^ 64"
    by simp
  from sleep_lower_bound
    [of 100 ?rs ?reqs 5000000000 5100000123 strerror_sample ?e0 ?e1 ?g0 ?gs ?g1 50000
        "[50001, 50060, 50101]" 50102 "[100, 41]"]
    d c r e f b0 b1 m s p l w
  show ?thesis by blast
qed

text \<open>
  With \<^verbatim>\<open>poll\<close>, a time of day set back by 50 ms after the loop was left makes the
  reading after a sleep of 100 ms only 50 ms later than the reading before it.
\<close>

theorem sleep_short_after_set_back:
  "0 \<le> sint (100 :: nni_duration) \<and>
   nni_clock_gettimeofday strerror_sample
     \<lparr>ret = 0, errno = 0, out = \<lparr>timeval.tv_sec = 50, tv_usec = 0\<rparr>\<rparr> = Inr 50000 \<and>
   nni_msleep_gettimeofday strerror_sample
     [\<lparr>ret = 0, errno = 0, out = \<lparr>timeval.tv_sec = 50, tv_usec = 0\<rparr>\<rparr>,
      \<lparr>ret = 0, errno = 0, out = \<lparr>timeval.tv_sec = 50, tv_usec = 100000\<rparr>\<rparr>] 100 =
     ([100], Some (Inr ())) \<and>
   nni_clock_gettimeofday strerror_sample
     \<lparr>ret = 0, errno = 0, out = \<lparr>timeval.tv_sec = 50, tv_usec = 50000\<rparr>\<rparr> = Inr 50050 \<and>
   \<not> sint (100 :: nni_duration) \<le> uint (50050 - 50000 :: nni_time)"
  by (simp add: nni_msleep_gettimeofday_def nni_clock_gettimeofday_def sdiv_word_def
      signed_divide_int_def)

text \<open>
  On the tick path the divisor of line 62 makes the clock run ten times slow: over a
  sleep of 100 ms that \<^verbatim>\<open>nanosleep\<close> completed, the clock goes from 500 to 510.
\<close>

lemma tick_clock_sleep_short:
  "nni_msleep
     [\<lparr>ret = 0, errno = 0, out = \<lparr>timespec.tv_sec = 0, tv_nsec = 100000000\<rparr>, elapsed = 100000000\<rparr>]
     100 = ([\<lparr>timespec.tv_sec = 0, tv_nsec = 100000000\<rparr>], Some ()) \<and>
   fst (nni_clock_apple strerror_sample
      \<lparr>builtin_available = False,
       clock_gettime_ret = \<lparr>ret = 0, errno = 0, out = \<lparr>timespec.tv_sec = 0, tv_nsec = 0\<rparr>\<rparr>,
       mach_absolute_time = 5000000000, mach_timebase_info_kr = 0,
       time_base_info = \<lparr>numer = 1, denom = 1\<rparr>\<rparr>) = Inr 500 \<and>
   fst (nni_clock_apple strerror_sample
      \<lparr>builtin_available = False,
       clock_gettime_ret = \<lparr>ret = 0, errno = 0, out = \<lparr>timespec.tv_sec = 0, tv_nsec = 0\<rparr>\<rparr>,
       mach_absolute_time = 5100000000, mach_timebase_info_kr = 0,
       time_base_info = \<lparr>numer = 1, denom = 1\<rparr>\<rparr>) = Inr 510 \<and>
   \<not> sint (100 :: nni_duration) \<le> uint (510 - 500 :: nni_time)"
  by (simp add: nni_msleep_def msleep_timespec_def sdiv_word_def smod_word_def
      signed_divide_int_def signed_modulo_int_def nni_clock_apple_def)

text \<open>
  Claim C8. A sleep of zero milliseconds returns at once and waits for nothing: on
  \<^verbatim>\<open>nanosleep\<close> the request is zero and the loop is not entered (nor is it entered again
  when a call leaves a zero remainder); on \<^verbatim>\<open>poll\<close> the expiration is the current time and
  \<^verbatim>\<open>poll\<close> is not called, the one reading of the clock having ended the call whichever
  way it went.
\<close>

theorem nni_msleep_zero:
  "nni_msleep rs 0 = ([], Some ()) \<and>
   nni_msleep_loop rs \<lparr>timespec.tv_sec = 0, tv_nsec = 0\<rparr> = ([], Some ()) \<and>
   (\<exists>res. nni_msleep_gettimeofday strerror (g # gs) 0 = ([], Some res))"
proof -
  have "nni_msleep rs 0 = nni_msleep_loop rs \<lparr>timespec.tv_sec = 0, tv_nsec = 0\<rparr>"
    by (simp add: nni_msleep_def msleep_timespec_def sdiv_word_def smod_word_def)
  moreover have "\<exists>res. nni_msleep_gettimeofday strerror (g # gs) 0 = ([], Some res)"
    by (cases gs) (simp_all add: nni_msleep_gettimeofday_def split: sum.splits)
  ultimately show ?thesis by (simp add: nni_msleep_loop_zero)
qed

theorem nni_msleep_zero_witness:
  "nni_msleep
     [\<lparr>ret = 0, errno = 0, out = \<lparr>timespec.tv_sec = 0, tv_nsec = 0\<rparr>, elapsed = 0\<rparr>] 0 =
     ([], Some ()) \<and>
   nni_msleep_gettimeofday strerror_sample
     [\<lparr>ret = 0, errno = 0, out = \<lparr>timeval.tv_sec = 50, tv_usec = 0\<rparr>\<rparr>] 0 =
     ([], Some (Inr ())) \<and>
   nni_msleep_gettimeofday strerror_sample
     [\<lparr>ret = - 1, errno = 14, out = \<lparr>timeval.tv_sec = 0, tv_usec = 0\<rparr>\<rparr>] 0 =
     ([], Some (Inl (Panic ''gettimeofday failed: Bad address'')))"
  using nni_msleep_zero
    [of "[\<lparr>ret = 0, errno = 0, out = \<lparr>timespec.tv_sec = 0, tv_nsec = 0\<rparr>, elapsed = 0\<rparr>]"
        strerror_sample
        "\<lparr>ret = 0, errno = 0, out = \<lparr>timeval.tv_sec = 50, tv_usec = 0\<rparr>\<rparr>" "[]"]
  by (simp add: nni_msleep_gettimeofday_def nni_clock_gettimeofday_def sdiv_word_def
      signed_divide_int_def nni_panic_def strerror_sample_def)

text \<open>
  Claim C10, as the code has it. For a negative duration whose size does not exceed the
  current clock value, the expiration \<open>now + ms\<close> is not after \<open>now\<close>, the loop body does
  not run and \<^verbatim>\<open>poll\<close> is not called.
\<close>

theorem negative_duration_no_poll:
  assumes "nni_clock_gettimeofday strerror g = Inr now"
    and "sint ms < 0" and "- sint ms \<le> uint now"
  shows "now + scast ms \<le> now \<and>
         nni_msleep_gettimeofday strerror (g # gs) ms = ([], Some (Inr ()))"
proof -
  have le: "now + scast ms \<le> now" using assms(2,3) by (rule expire_negative)
  then have "\<not> now < now + scast ms" by simp
  then have "nni_msleep_poll_loop strerror gs now (now + scast ms) = ([], Some (Inr ()))"
    by (cases gs) simp_all
  with le assms(1) show ?thesis by (simp add: nni_msleep_gettimeofday_def)
qed

theorem negative_duration_no_poll_witness:
  "nni_clock_gettimeofday strerror_sample
     \<lparr>ret = 0, errno = 0, out = \<lparr>timeval.tv_sec = 50, tv_usec = 0\<rparr>\<rparr> = Inr 50000 \<and>
   sint (- 10000 :: nni_duration) < 0 \<and>
   - sint (- 10000 :: nni_duration) \<le> uint (50000 :: nni_time) \<and>
   (50000 :: nni_time) + scast (- 10000 :: nni_duration) \<le> 50000 \<and>
   nni_msleep_gettimeofday strerror_sample
     [\<lparr>ret = 0, errno = 0, out = \<lparr>timeval.tv_sec = 50, tv_usec = 0\<rparr>\<rparr>] (- 10000) =
     ([], Some (Inr ()))"
proof -
  have a: "nni_clock_gettimeofday strerror_sample
     \<lparr>ret = 0, errno = 0, out = \<lparr>timeval.tv_sec = 50, tv_usec = 0\<rparr>\<rparr> = Inr 50000"
    by (simp add: nni_clock_gettimeofday_def sdiv_word_def)
  have b: "sint (- 10000 :: nni_duration) < 0" by simp
  have c: "- sint (- 10000 :: nni_duration) \<le> uint (50000 :: nni_time)" by simp
  from negative_duration_no_poll [OF a b c, of "[]"] a b c show ?thesis by blast
qed

text \<open>
  When the clock stands at 5000 ms and the duration is -10000 ms, the sum wraps to
  \<open>2 ^ 64 - 5000\<close>, which is after \<open>now\<close>: the loop body runs and \<^verbatim>\<open>poll\<close> is called with
  the timeout -10000.
\<close>

theorem negative_duration_polls:
  "sint (- 10000 :: 32 word) < 0 \<and>
   nni_clock_gettimeofday strerror_sample
     \<lparr>ret = 0, errno = 0, out = \<lparr>timeval.tv_sec = 5, tv_usec = 0\<rparr>\<rparr> = Inr 5000 \<and>
   \<not> ((5000 :: 64 word) + scast (- 10000 :: 32 word) \<le> 5000) \<and>
   nni_msleep_gettimeofday strerror_sample
     [\<lparr>ret = 0, errno = 0, out = \<lparr>timeval.tv_sec = 5, tv_usec = 0\<rparr>\<rparr>] (- 10000) =
     ([- 10000], None)"
  by (simp add: nni_msleep_gettimeofday_def nni_clock_gettimeofday_def sdiv_word_def)

end
